theory Spec2Isabelle
  imports Main "HOL-Library.AList"
begin

section \<open>The durable store\<close>

text \<open>
  The chat service works on five tables of the relational store (the SQL migrations
  give their columns). A table is the list of its rows in insertion order. Identifiers
  are the TEXT keys of the schema; timestamps are points of a discrete clock.
  Columns that no operation of the chat service reads or writes (titles, avatars, the
  surrogate keys of the participant tables, the \<open>updatedAt\<close> column of messages) are
  left out. Referential integrity towards the user table is not part of the model:
  user identifiers are taken to name existing users.
\<close>

type_synonym ident = string
type_synonym timestamp = nat

datatype ParticipantStatus = JOINED | WAITLISTED | CANCELLED

record event =
  event_id :: ident
  event_creatorId :: ident

record event_participant =
  ep_userId :: ident
  ep_eventId :: ident
  ep_status :: ParticipantStatus

record chat =
  chat_id :: ident
  chat_eventId :: ident
  chat_createdAt :: timestamp
  chat_updatedAt :: timestamp

record chat_participant =
  cp_userId :: ident
  cp_chatId :: ident
  cp_joinedAt :: timestamp
  cp_isActive :: bool

record chat_message =
  msg_id :: ident
  msg_content :: string
  msg_image :: "string option"
  msg_isRead :: bool
  msg_createdAt :: timestamp
  msg_senderId :: ident
  msg_receiverId :: ident
  msg_chatId :: ident

record db =
  events :: "event list"
  eventParticipants :: "event_participant list"
  chats :: "chat list"
  chatParticipants :: "chat_participant list"
  chatMessages :: "chat_message list"

text \<open>
  Every \<open>throw new Error(...)\<close> of the service is one constructor, named after its
  message. The last four are rejections by the store itself: a duplicate key, an update
  of a row that does not exist, a negative \<open>skip\<close>, and a write the store fails to
  perform.
\<close>

datatype error =
    EventNotFound
  | UserNotAuthorizedForEvent
  | UserNotAuthorizedForChat
  | SenderNotAuthorized
  | ReceiverNotFound
  | MessageNotFound
  | NotAuthorizedToMarkRead
  | UniqueConstraintFailed
  | RecordNotFound
  | InvalidSkip
  | StoreFailure

subsection \<open>Queries shared by the operations\<close>

definition participantsOf :: "db \<Rightarrow> ident \<Rightarrow> chat_participant list" where
  "participantsOf d chatId = filter (\<lambda>p. cp_chatId p = chatId) (chatParticipants d)"

definition messagesOf :: "db \<Rightarrow> ident \<Rightarrow> chat_message list" where
  "messagesOf d chatId = filter (\<lambda>m. msg_chatId m = chatId) (chatMessages d)"

text \<open>
  \<open>chatParticipant.findFirst({where: {chatId, userId, isActive: true}})\<close>, the
  membership test that opens \<open>getChatMessages\<close> and \<open>sendMessage\<close>.
\<close>

definition findActiveParticipant :: "db \<Rightarrow> ident \<Rightarrow> ident \<Rightarrow> chat_participant option" where
  "findActiveParticipant d chatId userId =
     find (\<lambda>p. cp_chatId p = chatId \<and> cp_userId p = userId \<and> cp_isActive p)
       (chatParticipants d)"

text \<open>
  \<open>orderBy: {createdAt: 'desc'}\<close>. The store leaves the order of rows with equal
  timestamps open; here the later inserted row comes first.
\<close>

definition orderByCreatedAtDesc :: "chat_message list \<Rightarrow> chat_message list" where
  "orderByCreatedAtDesc ms = rev (sort_key msg_createdAt ms)"

text \<open>
  \<open>skip\<close> and \<open>take\<close> of \<open>findMany\<close>: the query engine rejects a negative
  \<open>skip\<close>; a negative \<open>take\<close> counts from the end of the ordered rows.
\<close>

definition skipTake :: "int \<Rightarrow> int \<Rightarrow> 'a list \<Rightarrow> error + 'a list" where
  "skipTake skip tk xs =
     (if skip < 0 then Inl InvalidSkip
      else if 0 \<le> tk then Inr (take (nat tk) (drop (nat skip) xs))
      else Inr (rev (take (nat (- tk)) (drop (nat skip) (rev xs)))))"

text \<open>
  The arguments for which the store accepts the page: \<open>skip = (page - 1) * limit\<close>
  and \<open>take = limit\<close> are both from 0 to 2147483647. In this range the arithmetic
  of the service on its numbers is the arithmetic of the integers.
\<close>

definition acceptedPaging :: "int \<Rightarrow> int \<Rightarrow> bool" where
  "acceptedPaging page limit =
     (0 \<le> (page - 1) * limit \<and> (page - 1) * limit \<le> 2147483647 \<and>
      0 \<le> limit \<and> limit \<le> 2147483647)"

section \<open>The chat service\<close>

subsection \<open>getChatList\<close>

record chat_list_item =
  cli_chatId :: ident
  cli_eventId :: ident
  cli_participants :: "chat_participant list"
  cli_lastMessage :: "chat_message option"
  cli_unreadCount :: nat
  cli_joinedAt :: timestamp

text \<open>
  The list is read off the user's active participant rows, each joined with its chat
  row (the foreign key gives every participant row one), newest activity first.
\<close>

definition unreadCount :: "db \<Rightarrow> ident \<Rightarrow> ident \<Rightarrow> nat" where
  "unreadCount d chatId userId =
     length (filter (\<lambda>m. msg_receiverId m = userId \<and> \<not> msg_isRead m) (messagesOf d chatId))"

definition chatListItem :: "db \<Rightarrow> ident \<Rightarrow> chat_participant \<times> chat \<Rightarrow> chat_list_item" where
  "chatListItem d userId cpc =
     (case cpc of (cp, c) \<Rightarrow>
       \<lparr>cli_chatId = chat_id c,
        cli_eventId = chat_eventId c,
        cli_participants =
          filter (\<lambda>p. cp_userId p \<noteq> userId \<and> cp_isActive p) (participantsOf d (chat_id c)),
        cli_lastMessage =
          (case orderByCreatedAtDesc (messagesOf d (chat_id c)) of
             [] \<Rightarrow> None
           | m # _ \<Rightarrow> Some m),
        cli_unreadCount = unreadCount d (chat_id c) userId,
        cli_joinedAt = cp_joinedAt cp\<rparr>)"

definition getChatList :: "db \<Rightarrow> ident \<Rightarrow> chat_list_item list" where
  "getChatList d userId =
     (let mine = filter (\<lambda>p. cp_userId p = userId \<and> cp_isActive p) (chatParticipants d);
          joined = List.map_filter
            (\<lambda>cp. map_option (\<lambda>c. (cp, c)) (find (\<lambda>c. chat_id c = cp_chatId cp) (chats d)))
            mine;
          ordered = rev (sort_key (\<lambda>cpc. chat_updatedAt (snd cpc)) joined)
      in map (chatListItem d userId) ordered)"

subsection \<open>getOrCreateChat\<close>

text \<open>
  The value returned for a chat: the row with its included participants.
\<close>

record chat_view =
  cv_chat :: chat
  cv_participants :: "chat_participant list"

text \<open>
  Lines 93 to 115: the event lookup and the authorization guard. \<open>isParticipant\<close> is
  the row found for either of the two users, of any status.
\<close>

definition authorizeForEvent :: "db \<Rightarrow> ident \<Rightarrow> ident \<Rightarrow> ident \<Rightarrow> error + unit" where
  "authorizeForEvent d eventId participantId hostId =
     (case find (\<lambda>e. event_id e = eventId) (events d) of
        None \<Rightarrow> Inl EventNotFound
      | Some ev \<Rightarrow>
          (let isHost = (event_creatorId ev = participantId \<or> event_creatorId ev = hostId);
               isParticipant = find
                 (\<lambda>p. ep_eventId p = eventId \<and> ep_userId p \<in> set [participantId, hostId])
                 (eventParticipants d)
           in if \<not> isHost \<and> isParticipant = None then Inl UserNotAuthorizedForEvent
              else Inr ()))"

text \<open>
  Lines 117 to 144: \<open>chat.findFirst\<close> with the relation filter \<open>every\<close>, then the test
  on the number of participants. The result is the chat to return, or \<open>None\<close> when a
  new one is to be created.
\<close>

definition findExistingChat :: "db \<Rightarrow> ident \<Rightarrow> ident \<Rightarrow> ident \<Rightarrow> chat_view option" where
  "findExistingChat d eventId participantId hostId =
     (case find
        (\<lambda>c. chat_eventId c = eventId \<and>
             list_all (\<lambda>p. cp_userId p \<in> set [participantId, hostId])
               (participantsOf d (chat_id c)))
        (chats d) of
        None \<Rightarrow> None
      | Some c \<Rightarrow>
          if length (participantsOf d (chat_id c)) = 2
          then Some \<lparr>cv_chat = c, cv_participants = participantsOf d (chat_id c)\<rparr>
          else None)"

text \<open>
  What the environment supplies to a \<open>chat.create\<close>: the generated key and the time.
\<close>

record create_env =
  ce_newId :: ident
  ce_now :: timestamp

text \<open>
  Lines 146 to 184: \<open>chat.create\<close> with the nested creation of the two participant
  rows, one atomic write. The store rejects a chat key that exists (primary key) and a
  second participant row for the same user and chat (the unique index on
  \<open>(userId, chatId)\<close>).
\<close>

definition createChat :: "db \<Rightarrow> ident \<Rightarrow> ident \<Rightarrow> ident \<Rightarrow> create_env \<Rightarrow> (error + chat_view) \<times> db" where
  "createChat d eventId participantId hostId env =
     (if ce_newId env \<in> set (map chat_id (chats d)) then (Inl UniqueConstraintFailed, d)
      else if participantId = hostId \<or>
              list_ex (\<lambda>p. cp_chatId p = ce_newId env \<and> cp_userId p \<in> set [participantId, hostId])
                (chatParticipants d)
      then (Inl UniqueConstraintFailed, d)
      else
        (let c = \<lparr>chat_id = ce_newId env, chat_eventId = eventId,
                  chat_createdAt = ce_now env, chat_updatedAt = ce_now env\<rparr>;
             ps = [\<lparr>cp_userId = participantId, cp_chatId = ce_newId env,
                    cp_joinedAt = ce_now env, cp_isActive = True\<rparr>,
                   \<lparr>cp_userId = hostId, cp_chatId = ce_newId env,
                    cp_joinedAt = ce_now env, cp_isActive = True\<rparr>];
             d' = d\<lparr>chats := chats d @ [c], chatParticipants := chatParticipants d @ ps\<rparr>
         in (Inr \<lparr>cv_chat = c, cv_participants = participantsOf d' (ce_newId env)\<rparr>, d')))"

definition getOrCreateChat :: "db \<Rightarrow> ident \<Rightarrow> ident \<Rightarrow> ident \<Rightarrow> create_env \<Rightarrow> (error + chat_view) \<times> db" where
  "getOrCreateChat d eventId participantId hostId env =
     (case authorizeForEvent d eventId participantId hostId of
        Inl e \<Rightarrow> (Inl e, d)
      | Inr _ \<Rightarrow>
          (case findExistingChat d eventId participantId hostId of
             Some existingChat \<Rightarrow> (Inr existingChat, d)
           | None \<Rightarrow> createChat d eventId participantId hostId env))"

subsection \<open>getChatMessages\<close>

record message_page =
  mp_messages :: "chat_message list"
  mp_hasMore :: bool
  mp_page :: int

text \<open>
  The \<open>updateMany\<close> of lines 229 to 238: every row of the chat addressed to the user
  and not yet read gets \<open>isRead = true\<close>.
\<close>

definition markChatRead :: "ident \<Rightarrow> ident \<Rightarrow> chat_message \<Rightarrow> chat_message" where
  "markChatRead chatId userId m =
     (if msg_chatId m = chatId \<and> msg_receiverId m = userId \<and> \<not> msg_isRead m
      then m\<lparr>msg_isRead := True\<rparr> else m)"

text \<open>
  The page is fetched first and the rows are marked afterwards, as in the source; the
  returned page holds the rows as they were fetched. \<open>page\<close> and \<open>limit\<close> are the
  integers the controller parses.
\<close>

definition getChatMessages :: "db \<Rightarrow> ident \<Rightarrow> ident \<Rightarrow> int \<Rightarrow> int \<Rightarrow> (error + message_page) \<times> db" where
  "getChatMessages d chatId userId page limit =
     (case findActiveParticipant d chatId userId of
        None \<Rightarrow> (Inl UserNotAuthorizedForChat, d)
      | Some participant \<Rightarrow>
          (let skip = (page - 1) * limit in
           case skipTake skip limit (orderByCreatedAtDesc (messagesOf d chatId)) of
             Inl e \<Rightarrow> (Inl e, d)
           | Inr messages \<Rightarrow>
               (Inr \<lparr>mp_messages = rev messages,
                     mp_hasMore = (int (length messages) = limit),
                     mp_page = page\<rparr>,
                d\<lparr>chatMessages := map (markChatRead chatId userId) (chatMessages d)\<rparr>)))"

subsection \<open>sendMessage\<close>

text \<open>
  What the environment supplies to a send: the generated key of the message, the
  store's clock for \<open>createdAt\<close>, the server's clock for \<open>new Date()\<close>, and whether
  the store fails to perform the insert or the update of the transaction.
\<close>

record send_env =
  se_newId :: ident
  se_createdAt :: timestamp
  se_now :: timestamp
  se_createFails :: bool
  se_updateFails :: bool

text \<open>
  An interactive transaction: the writes of the body are kept when it returns and
  discarded when it throws.
\<close>

definition transaction :: "db \<Rightarrow> (db \<Rightarrow> error + 'a \<times> db) \<Rightarrow> (error + 'a) \<times> db" where
  "transaction d body =
     (case body d of
        Inl e \<Rightarrow> (Inl e, d)
      | Inr (r, tx) \<Rightarrow> (Inr r, tx))"

definition chatMessage_create :: "db \<Rightarrow> chat_message \<Rightarrow> bool \<Rightarrow> error + chat_message \<times> db" where
  "chatMessage_create tx m fails =
     (if fails then Inl StoreFailure
      else if msg_id m \<in> set (map msg_id (chatMessages tx)) then Inl UniqueConstraintFailed
      else Inr (m, tx\<lparr>chatMessages := chatMessages tx @ [m]\<rparr>))"

definition chat_update :: "db \<Rightarrow> ident \<Rightarrow> timestamp \<Rightarrow> bool \<Rightarrow> error + db" where
  "chat_update tx chatId now fails =
     (if fails then Inl StoreFailure
      else if chatId \<notin> set (map chat_id (chats tx)) then Inl RecordNotFound
      else Inr (tx\<lparr>chats :=
                  map (\<lambda>c. if chat_id c = chatId then c\<lparr>chat_updatedAt := now\<rparr> else c)
                    (chats tx)\<rparr>))"

definition sendMessage ::
  "db \<Rightarrow> ident \<Rightarrow> ident \<Rightarrow> ident \<Rightarrow> string \<Rightarrow> string option \<Rightarrow> send_env \<Rightarrow> (error + chat_message) \<times> db" where
  "sendMessage d chatId senderId receiverId content img env =
     (case findActiveParticipant d chatId senderId of
        None \<Rightarrow> (Inl SenderNotAuthorized, d)
      | Some senderParticipant \<Rightarrow>
          (case findActiveParticipant d chatId receiverId of
             None \<Rightarrow> (Inl ReceiverNotFound, d)
           | Some receiverParticipant \<Rightarrow>
               transaction d (\<lambda>tx.
                 case chatMessage_create tx
                        \<lparr>msg_id = se_newId env, msg_content = content, msg_image = img,
                         msg_isRead = False, msg_createdAt = se_createdAt env,
                         msg_senderId = senderId, msg_receiverId = receiverId,
                         msg_chatId = chatId\<rparr>
                        (se_createFails env) of
                   Inl e \<Rightarrow> Inl e
                 | Inr (newMessage, tx1) \<Rightarrow>
                     (case chat_update tx1 chatId (se_now env) (se_updateFails env) of
                        Inl e \<Rightarrow> Inl e
                      | Inr tx2 \<Rightarrow> Inr (newMessage, tx2)))))"

subsection \<open>markMessageAsRead\<close>

definition markMessageAsRead :: "db \<Rightarrow> ident \<Rightarrow> ident \<Rightarrow> (error + chat_message) \<times> db" where
  "markMessageAsRead d messageId userId =
     (case find (\<lambda>m. msg_id m = messageId) (chatMessages d) of
        None \<Rightarrow> (Inl MessageNotFound, d)
      | Some message \<Rightarrow>
          if msg_receiverId message \<noteq> userId then (Inl NotAuthorizedToMarkRead, d)
          else (Inr (message\<lparr>msg_isRead := True\<rparr>),
                d\<lparr>chatMessages :=
                    map (\<lambda>m. if msg_id m = messageId then m\<lparr>msg_isRead := True\<rparr> else m)
                      (chatMessages d)\<rparr>))"

section \<open>The gateway\<close>

text \<open>
  A socket as the gateway sees it: its id, the \<open>userId\<close> property the gateway sets on
  it, and the three handshake fields the connection handler reads. A field that is
  absent (\<open>undefined\<close>) is \<open>None\<close>.
\<close>

record socket =
  sock_id :: ident
  sock_userId :: "ident option"
  auth_token :: "string option"
  headers_authorization :: "string option"
  auth_userId :: "ident option"

text \<open>The truth value of a possibly absent string: absent and empty are false.\<close>

definition truthy :: "string option \<Rightarrow> bool" where
  "truthy v = (case v of None \<Rightarrow> False | Some s \<Rightarrow> s \<noteq> [])"

text \<open>
  The events the gateway emits, with the payload fields the claims speak of (the
  included user projections of a message, and with them \<open>senderName\<close>, are left out).
\<close>

datatype ws_event =
    UserOnline ident
  | UserOffline ident
  | ErrorEvent string
  | JoinedChat ident
  | LeftChat ident
  | NewMessage chat_message
  | MessageNotification ident ident string
  | MessageRead ident
  | UserTyping ident ident
  | UserStoppedTyping ident ident

text \<open>
  Where an event goes: \<open>client.emit\<close> (the socket itself), \<open>client.broadcast.emit\<close>
  (every socket but this one), \<open>server.to(room).emit\<close> (the sockets in a room).
\<close>

datatype emission =
    ToClient ident ws_event
  | ToOthers ident ws_event
  | ToRoom string ws_event

text \<open>
  The gateway's state: the \<open>connectedUsers\<close> map (user id to socket id, in insertion
  order as a JavaScript \<open>Map\<close> keeps it), the room memberships of the sockets, the
  emissions so far, and the sockets the server has closed with \<open>client.disconnect()\<close>.
  Log lines are not part of the state.
\<close>

record gateway =
  connectedUsers :: "(ident \<times> ident) list"
  rooms :: "(ident \<times> string) set"
  emitted :: "emission list"
  disconnected :: "ident list"

definition chat_room :: "ident \<Rightarrow> string" where
  "chat_room chatId = ''chat_'' @ chatId"

definition user_room :: "ident \<Rightarrow> string" where
  "user_room userId = ''user_'' @ userId"

definition emit :: "emission \<Rightarrow> gateway \<Rightarrow> gateway" where
  "emit e g = g\<lparr>emitted := emitted g @ [e]\<rparr>"

definition handleConnection :: "gateway \<Rightarrow> socket \<Rightarrow> gateway \<times> socket" where
  "handleConnection g client =
     (let token = (if truthy (auth_token client) then auth_token client
                   else headers_authorization client)
      in if \<not> truthy token
         then (g\<lparr>disconnected := disconnected g @ [sock_id client]\<rparr>, client)
         else
           (case auth_userId client of
              None \<Rightarrow> (g\<lparr>disconnected := disconnected g @ [sock_id client]\<rparr>, client)
            | Some userId \<Rightarrow>
                if \<not> truthy (Some userId)
                then (g\<lparr>disconnected := disconnected g @ [sock_id client]\<rparr>, client)
                else
                  (emit (ToOthers (sock_id client) (UserOnline userId))
                     (g\<lparr>connectedUsers :=
                          AList.update userId (sock_id client) (connectedUsers g),
                        rooms := insert (sock_id client, user_room userId) (rooms g)\<rparr>),
                   client\<lparr>sock_userId := Some userId\<rparr>)))"

text \<open>
  \<open>handleDisconnect\<close> as the gateway defines it; what the socket library itself does
  when a socket closes (it leaves its rooms) is not part of the handler.
\<close>

definition handleDisconnect :: "gateway \<Rightarrow> socket \<Rightarrow> gateway" where
  "handleDisconnect g client =
     (case sock_userId client of
        None \<Rightarrow> g
      | Some userId \<Rightarrow>
          if \<not> truthy (Some userId) then g
          else emit (ToOthers (sock_id client) (UserOffline userId))
                 (g\<lparr>connectedUsers := AList.delete userId (connectedUsers g)\<rparr>))"

definition handleJoinChat :: "gateway \<Rightarrow> socket \<Rightarrow> ident \<Rightarrow> gateway" where
  "handleJoinChat g client chatId =
     (if \<not> truthy (sock_userId client)
      then emit (ToClient (sock_id client) (ErrorEvent ''Not authenticated'')) g
      else emit (ToClient (sock_id client) (JoinedChat chatId))
             (g\<lparr>rooms := insert (sock_id client, chat_room chatId) (rooms g)\<rparr>))"

definition handleLeaveChat :: "gateway \<Rightarrow> socket \<Rightarrow> ident \<Rightarrow> gateway" where
  "handleLeaveChat g client chatId =
     emit (ToClient (sock_id client) (LeftChat chatId))
       (g\<lparr>rooms := rooms g - {(sock_id client, chat_room chatId)}\<rparr>)"

text \<open>
  \<open>handleSendMessage\<close>: the service call runs inside \<open>try\<close>; whatever it throws ends
  in the one \<open>error\<close> event of the \<open>catch\<close> branch.
\<close>

definition handleSendMessage ::
  "gateway \<Rightarrow> db \<Rightarrow> socket \<Rightarrow> ident \<Rightarrow> ident \<Rightarrow> string \<Rightarrow> string option \<Rightarrow> send_env \<Rightarrow> gateway \<times> db" where
  "handleSendMessage g d client chatId receiverId content img env =
     (case sock_userId client of
        None \<Rightarrow> (emit (ToClient (sock_id client) (ErrorEvent ''Not authenticated'')) g, d)
      | Some userId \<Rightarrow>
          if \<not> truthy (Some userId)
          then (emit (ToClient (sock_id client) (ErrorEvent ''Not authenticated'')) g, d)
          else
            (case sendMessage d chatId userId receiverId content img env of
               (Inl e, d') \<Rightarrow>
                 (emit (ToClient (sock_id client) (ErrorEvent ''Failed to send message'')) g, d')
             | (Inr message, d') \<Rightarrow>
                 (let g1 = emit (ToRoom (chat_room chatId) (NewMessage message)) g;
                      receiverSocketId = map_of (connectedUsers g) receiverId
                  in if truthy receiverSocketId
                     then (emit (ToRoom (user_room receiverId)
                                  (MessageNotification chatId userId
                                     (if length content > 50 then take 50 content @ ''...''
                                      else content))) g1, d')
                     else (g1, d'))))"

definition handleMarkAsRead :: "gateway \<Rightarrow> db \<Rightarrow> socket \<Rightarrow> ident \<Rightarrow> gateway \<times> db" where
  "handleMarkAsRead g d client messageId =
     (case sock_userId client of
        None \<Rightarrow> (emit (ToClient (sock_id client) (ErrorEvent ''Not authenticated'')) g, d)
      | Some userId \<Rightarrow>
          if \<not> truthy (Some userId)
          then (emit (ToClient (sock_id client) (ErrorEvent ''Not authenticated'')) g, d)
          else
            (case markMessageAsRead d messageId userId of
               (Inl e, d') \<Rightarrow>
                 (emit (ToClient (sock_id client)
                          (ErrorEvent ''Failed to mark message as read'')) g, d')
             | (Inr message, d') \<Rightarrow>
                 (emit (ToClient (sock_id client) (MessageRead messageId)) g, d')))"

definition handleTyping :: "gateway \<Rightarrow> socket \<Rightarrow> ident \<Rightarrow> ident \<Rightarrow> gateway" where
  "handleTyping g client chatId receiverId =
     (case sock_userId client of
        None \<Rightarrow> g
      | Some userId \<Rightarrow>
          if \<not> truthy (Some userId) then g
          else if truthy (map_of (connectedUsers g) receiverId)
          then emit (ToRoom (user_room receiverId) (UserTyping chatId userId)) g
          else g)"

definition handleStopTyping :: "gateway \<Rightarrow> socket \<Rightarrow> ident \<Rightarrow> ident \<Rightarrow> gateway" where
  "handleStopTyping g client chatId receiverId =
     (case sock_userId client of
        None \<Rightarrow> g
      | Some userId \<Rightarrow>
          if \<not> truthy (Some userId) then g
          else if truthy (map_of (connectedUsers g) receiverId)
          then emit (ToRoom (user_room receiverId) (UserStoppedTyping chatId userId)) g
          else g)"

definition isUserOnline :: "gateway \<Rightarrow> ident \<Rightarrow> bool" where
  "isUserOnline g userId = (map_of (connectedUsers g) userId \<noteq> None)"

definition getOnlineUsers :: "gateway \<Rightarrow> ident list" where
  "getOnlineUsers g = map fst (connectedUsers g)"

section \<open>The example scenario\<close>

text \<open>
  The scenario of the specification: event \<open>E\<close> hosted by \<open>A\<close>, joined by \<open>B\<close>; room
  \<open>R\<close> with the participants \<open>A\<close> and \<open>B\<close>; one message \<open>m1\<close> from \<open>B\<close> to \<open>A\<close>,
  not yet read.
\<close>

definition exampleDb :: db where
  "exampleDb =
     \<lparr>events = [\<lparr>event_id = ''E'', event_creatorId = ''A''\<rparr>],
      eventParticipants = [\<lparr>ep_userId = ''B'', ep_eventId = ''E'', ep_status = JOINED\<rparr>],
      chats = [\<lparr>chat_id = ''R'', chat_eventId = ''E'', chat_createdAt = 1, chat_updatedAt = 2\<rparr>],
      chatParticipants =
        [\<lparr>cp_userId = ''B'', cp_chatId = ''R'', cp_joinedAt = 1, cp_isActive = True\<rparr>,
         \<lparr>cp_userId = ''A'', cp_chatId = ''R'', cp_joinedAt = 1, cp_isActive = True\<rparr>],
      chatMessages =
        [\<lparr>msg_id = ''m1'', msg_content = ''hi'', msg_image = None, msg_isRead = False,
          msg_createdAt = 2, msg_senderId = ''B'', msg_receiverId = ''A'',
          msg_chatId = ''R''\<rparr>]\<rparr>"


section \<open>Sequences of service calls\<close>

text \<open>
  A call of one of the four operations of the service that write to the store, with its
  arguments (and, for the two that create rows, what the environment supplies). A call
  that fails leaves the store it returns; \<open>run\<close> performs calls one after the other.
\<close>

datatype service_call =
    SendMessage ident ident ident string "string option" send_env
  | GetChatMessages ident ident int int
  | MarkMessageAsRead ident ident
  | GetOrCreateChat ident ident ident create_env

fun step :: "db \<Rightarrow> service_call \<Rightarrow> db" where
  "step d (SendMessage chatId senderId receiverId content img env) =
     snd (sendMessage d chatId senderId receiverId content img env)"
| "step d (GetChatMessages chatId userId page limit) =
     snd (getChatMessages d chatId userId page limit)"
| "step d (MarkMessageAsRead messageId userId) =
     snd (markMessageAsRead d messageId userId)"
| "step d (GetOrCreateChat eventId participantId hostId env) =
     snd (getOrCreateChat d eventId participantId hostId env)"

fun run :: "db \<Rightarrow> service_call list \<Rightarrow> db" where
  "run d [] = d"
| "run d (c # cs) = run (step d c) cs"

section \<open>Example sockets\<close>

text \<open>
  A socket that opens a connection with a token and the user id it claims, the same
  socket once \<open>handleConnection\<close> has accepted it, and the gateway before any
  connection.
\<close>

definition newSocket :: "ident \<Rightarrow> ident \<Rightarrow> socket" where
  "newSocket sid userId =
     \<lparr>sock_id = sid, sock_userId = None, auth_token = Some ''token'',
      headers_authorization = None, auth_userId = Some userId\<rparr>"

definition authSocket :: "ident \<Rightarrow> ident \<Rightarrow> socket" where
  "authSocket sid userId = (newSocket sid userId)\<lparr>sock_userId := Some userId\<rparr>"

definition emptyGateway :: gateway where
  "emptyGateway = \<lparr>connectedUsers = [], rooms = {}, emitted = [], disconnected = []\<rparr>"

text \<open>
  Two connections of one user: \<open>U\<close> connects with socket \<open>S1\<close>, connects again with
  socket \<open>S2\<close>, and then the first socket disconnects.
\<close>

definition afterS1 :: "gateway \<times> socket" where
  "afterS1 = handleConnection emptyGateway (newSocket ''S1'' ''U'')"

definition afterS2 :: "gateway \<times> socket" where
  "afterS2 = handleConnection (fst afterS1) (newSocket ''S2'' ''U'')"

definition afterS1Disconnect :: gateway where
  "afterS1Disconnect = handleDisconnect (fst afterS2) (snd afterS1)"

section \<open>Rooms: well-formed stores and overlapping calls\<close>

text \<open>
  Two facts about chats and their participant rows that the schema and the service
  maintain: every participant row belongs to a chat row (the foreign key of
  \<open>chat_participants\<close>), and every chat has two participant rows (rows are created
  with their chat by \<open>getOrCreateChat\<close> only, two at a time, and never deleted).
\<close>

definition wf_chats :: "db \<Rightarrow> bool" where
  "wf_chats d =
     (list_all (\<lambda>p. cp_chatId p \<in> set (map chat_id (chats d))) (chatParticipants d) \<and>
      list_all (\<lambda>c. length (participantsOf d (chat_id c)) = 2) (chats d))"

text \<open>
  \<open>getOrCreateChat\<close> awaits the store four times. Its reads (the event, the
  participant row, the existing chat; lines 93 to 144) decide what the write (lines
  146 to 184) does. \<open>readPhase\<close> is that decision and \<open>writePhase\<close> acts on it;
  \<open>getOrCreateChat\<close> is the one after the other on the same store.
\<close>

definition readPhase :: "db \<Rightarrow> ident \<Rightarrow> ident \<Rightarrow> ident \<Rightarrow> error + chat_view option" where
  "readPhase d eventId participantId hostId =
     (case authorizeForEvent d eventId participantId hostId of
        Inl e \<Rightarrow> Inl e
      | Inr _ \<Rightarrow> Inr (findExistingChat d eventId participantId hostId))"

definition writePhase ::
  "error + chat_view option \<Rightarrow> db \<Rightarrow> ident \<Rightarrow> ident \<Rightarrow> ident \<Rightarrow> create_env \<Rightarrow> (error + chat_view) \<times> db" where
  "writePhase decision d eventId participantId hostId env =
     (case decision of
        Inl e \<Rightarrow> (Inl e, d)
      | Inr (Some existingChat) \<Rightarrow> (Inr existingChat, d)
      | Inr None \<Rightarrow> createChat d eventId participantId hostId env)"

text \<open>
  Two calls that overlap: both have done their reads on the store \<open>d\<close> before either
  writes; then the first writes, then the second. The result is what each call returns
  and the final store.
\<close>

definition overlappedCalls ::
  "db \<Rightarrow> ident \<Rightarrow> ident \<Rightarrow> ident \<Rightarrow> create_env \<Rightarrow> ident \<Rightarrow> ident \<Rightarrow> create_env \<Rightarrow>
   (error + chat_view) \<times> (error + chat_view) \<times> db" where
  "overlappedCalls d eventId a1 b1 env1 a2 b2 env2 =
     (let decision1 = readPhase d eventId a1 b1;
          decision2 = readPhase d eventId a2 b2;
          (result1, d1) = writePhase decision1 d eventId a1 b1 env1;
          (result2, d2) = writePhase decision2 d1 eventId a2 b2 env2
      in (result1, result2, d2))"

text \<open>The example scenario before any room exists.\<close>

definition freshDb :: db where
  "freshDb = exampleDb\<lparr>chats := [], chatParticipants := [], chatMessages := []\<rparr>"

section \<open>Properties of the chat service\<close>

subsection \<open>markMessageAsRead\<close>

lemma map_setRead_idem:
  "map (\<lambda>x. if msg_id x = i then x\<lparr>msg_isRead := True\<rparr> else x)
     (map (\<lambda>x. if msg_id x = i then x\<lparr>msg_isRead := True\<rparr> else x) ms)
   = map (\<lambda>x. if msg_id x = i then x\<lparr>msg_isRead := True\<rparr> else x) ms"
  by (induction ms) auto

lemma find_map_setRead:
  "find (\<lambda>m. msg_id m = i) ms = Some m \<Longrightarrow>
   find (\<lambda>m. msg_id m = i)
     (map (\<lambda>x. if msg_id x = i then x\<lparr>msg_isRead := True\<rparr> else x) ms)
   = Some (m\<lparr>msg_isRead := True\<rparr>)"
  by (induction ms) (auto split: if_splits)

text \<open>
  Claim C8. \<open>markMessageAsRead\<close> on a message id that does not exist fails with
  ``Message not found'', and on a message whose receiver is not the caller with ``Not
  authorized to mark this message as read''; in both cases the store is left as it
  was. When the caller is the receiver the call returns the message with the read flag
  set; in the store the row with that id has the flag set, every other row and every
  other table is as before; and the same call on the resulting store returns the same
  message and leaves that store unchanged.
\<close>

theorem markMessageAsRead_receiver_only:
  "(find (\<lambda>m. msg_id m = messageId) (chatMessages d) = None \<longrightarrow>
      markMessageAsRead d messageId callerId = (Inl MessageNotFound, d)) \<and>
   (\<forall>m. find (\<lambda>m. msg_id m = messageId) (chatMessages d) = Some m \<longrightarrow>
      (msg_receiverId m \<noteq> callerId \<longrightarrow>
         markMessageAsRead d messageId callerId = (Inl NotAuthorizedToMarkRead, d)) \<and>
      (msg_receiverId m = callerId \<longrightarrow>
         (\<exists>d'. markMessageAsRead d messageId callerId = (Inr (m\<lparr>msg_isRead := True\<rparr>), d') \<and>
               d' = d\<lparr>chatMessages := chatMessages d'\<rparr> \<and>
               length (chatMessages d') = length (chatMessages d) \<and>
               (\<forall>k < length (chatMessages d).
                  if msg_id (chatMessages d ! k) = messageId
                  then chatMessages d' ! k = (chatMessages d ! k)\<lparr>msg_isRead := True\<rparr>
                  else chatMessages d' ! k = chatMessages d ! k) \<and>
               markMessageAsRead d' messageId callerId = (Inr (m\<lparr>msg_isRead := True\<rparr>), d'))))"
  by (auto simp: markMessageAsRead_def map_setRead_idem find_map_setRead)

theorem markMessageAsRead_receiver_only_witness:
  "markMessageAsRead exampleDb ''m0'' ''A'' = (Inl MessageNotFound, exampleDb) \<and>
   markMessageAsRead exampleDb ''m1'' ''B'' = (Inl NotAuthorizedToMarkRead, exampleDb) \<and>
   fst (markMessageAsRead exampleDb ''m1'' ''A'')
     = Inr \<lparr>msg_id = ''m1'', msg_content = ''hi'', msg_image = None, msg_isRead = True,
            msg_createdAt = 2, msg_senderId = ''B'', msg_receiverId = ''A'',
            msg_chatId = ''R''\<rparr> \<and>
   markMessageAsRead (snd (markMessageAsRead exampleDb ''m1'' ''A'')) ''m1'' ''A''
     = markMessageAsRead exampleDb ''m1'' ''A''"
proof -
  have none: "find (\<lambda>m. msg_id m = ''m0'') (chatMessages exampleDb) = None"
    by (simp add: exampleDb_def)
  have some: "find (\<lambda>m. msg_id m = ''m1'') (chatMessages exampleDb)
      = Some \<lparr>msg_id = ''m1'', msg_content = ''hi'', msg_image = None, msg_isRead = False,
          msg_createdAt = 2, msg_senderId = ''B'', msg_receiverId = ''A'',
          msg_chatId = ''R''\<rparr>"
    by (simp add: exampleDb_def)
  have a: "markMessageAsRead exampleDb ''m0'' ''A'' = (Inl MessageNotFound, exampleDb)"
    using markMessageAsRead_receiver_only [of "''m0''" exampleDb "''A''"] none by simp
  have b: "markMessageAsRead exampleDb ''m1'' ''B'' = (Inl NotAuthorizedToMarkRead, exampleDb)"
    using markMessageAsRead_receiver_only [of "''m1''" exampleDb "''B''"] some by simp
  obtain d' where
    c: "markMessageAsRead exampleDb ''m1'' ''A''
          = (Inr \<lparr>msg_id = ''m1'', msg_content = ''hi'', msg_image = None, msg_isRead = True,
               msg_createdAt = 2, msg_senderId = ''B'', msg_receiverId = ''A'',
               msg_chatId = ''R''\<rparr>, d')" and
    d: "markMessageAsRead d' ''m1'' ''A''
          = (Inr \<lparr>msg_id = ''m1'', msg_content = ''hi'', msg_image = None, msg_isRead = True,
               msg_createdAt = 2, msg_senderId = ''B'', msg_receiverId = ''A'',
               msg_chatId = ''R''\<rparr>, d')"
    using markMessageAsRead_receiver_only [of "''m1''" exampleDb "''A''"] some by auto
  show ?thesis using a b c d by simp
qed

subsection \<open>getChatMessages\<close>

lemma markChatRead_read:
  "msg_chatId (markChatRead c u m) = c \<Longrightarrow> msg_receiverId (markChatRead c u m) = u \<Longrightarrow>
   msg_isRead (markChatRead c u m)"
  by (simp add: markChatRead_def split: if_splits)

lemma markChatRead_addressed:
  "msg_chatId m = c \<Longrightarrow> msg_receiverId m = u \<Longrightarrow>
   markChatRead c u m = m\<lparr>msg_isRead := True\<rparr>"
  by (cases "msg_isRead m") (simp_all add: markChatRead_def)

lemma markChatRead_other:
  "msg_chatId m \<noteq> c \<or> msg_receiverId m \<noteq> u \<Longrightarrow> markChatRead c u m = m"
  by (auto simp: markChatRead_def)

lemma unreadCount_after_mark:
  "unreadCount (d\<lparr>chatMessages := map (markChatRead c u) (chatMessages d)\<rparr>) c u = 0"
  by (auto simp: unreadCount_def messagesOf_def filter_empty_conv dest: markChatRead_read)

lemma getChatList_unreadCount:
  "it \<in> set (getChatList d u) \<Longrightarrow> cli_unreadCount it = unreadCount d (cli_chatId it) u"
  by (auto simp: getChatList_def Let_def chatListItem_def)

lemma getChatList_lists_chat:
  assumes "findActiveParticipant d c u = Some p" and "find (\<lambda>ch. chat_id ch = c) (chats d) = Some ch"
  shows "\<exists>it \<in> set (getChatList d u). cli_chatId it = c"
proof -
  from assms(1) have p: "p \<in> set (chatParticipants d)" "cp_chatId p = c" "cp_userId p = u" "cp_isActive p"
    by (auto simp: findActiveParticipant_def find_Some_iff)
  from assms(2) have "chat_id ch = c"
    by (auto simp: find_Some_iff)
  with p assms(2) have "chatListItem d u (p, ch) \<in> set (getChatList d u)"
    by (force simp: getChatList_def Let_def List.map_filter_def image_iff)
  moreover have "cli_chatId (chatListItem d u (p, ch)) = c"
    using \<open>chat_id ch = c\<close> by (simp add: chatListItem_def)
  ultimately show ?thesis by blast
qed

lemma skipTake_accepted:
  "acceptedPaging page limit \<Longrightarrow>
   skipTake ((page - 1) * limit) limit xs
     = Inr (take (nat limit) (drop (nat ((page - 1) * limit)) xs))"
  unfolding acceptedPaging_def skipTake_def by simp

lemma getChatMessages_accepted:
  assumes "findActiveParticipant d c u = Some p" and "acceptedPaging page limit"
  shows "getChatMessages d c u page limit =
           (Inr \<lparr>mp_messages =
                   rev (take (nat limit) (drop (nat ((page - 1) * limit))
                          (orderByCreatedAtDesc (messagesOf d c)))),
                 mp_hasMore =
                   (int (length (take (nat limit) (drop (nat ((page - 1) * limit))
                          (orderByCreatedAtDesc (messagesOf d c))))) = limit),
                 mp_page = page\<rparr>,
            d\<lparr>chatMessages := map (markChatRead c u) (chatMessages d)\<rparr>)"
  unfolding getChatMessages_def Let_def assms(1) skipTake_accepted [OF assms(2)] by simp



lemma markChatRead_rows:
  "\<forall>k < length ms.
     map (markChatRead c u) ms ! k =
       (if msg_chatId (ms ! k) = c \<and> msg_receiverId (ms ! k) = u
        then (ms ! k)\<lparr>msg_isRead := True\<rparr> else ms ! k)"
  by (simp add: markChatRead_addressed markChatRead_other)

text \<open>
  Claim C4 says that the page returned to \<open>A\<close> holds the message with \<open>isRead = true\<close>.
  The page is fetched before the rows are marked: in the example scenario the call
  \<open>getChatMessages(R, A, 1, 50)\<close> returns the message of \<open>B\<close> with
  \<open>isRead = false\<close>.
\<close>

theorem getChatMessages_returns_unread_snapshot:
  "fst (getChatMessages exampleDb ''R'' ''A'' 1 50) =
     Inr \<lparr>mp_messages =
            [\<lparr>msg_id = ''m1'', msg_content = ''hi'', msg_image = None, msg_isRead = False,
              msg_createdAt = 2, msg_senderId = ''B'', msg_receiverId = ''A'',
              msg_chatId = ''R''\<rparr>],
          mp_hasMore = False, mp_page = 1\<rparr>"
  by code_simp

text \<open>
  Claim C4, as the code has it. When an active participant fetches a page (with
  \<open>skip\<close> and \<open>take\<close> in the range the store accepts), the call succeeds. The page
  is cut from the rows of the chat as they were stored before the call, so each
  returned message carries the read flag it had then. In the store afterwards every row
  of the chat addressed to the caller is the old row with the read flag set, and every
  other row and table is as before; so no message of the chat addressed to the caller
  is unread, and the entry of the chat in the caller's \<open>getChatList\<close> (there is one
  when the chat row exists) reports the unread count zero.
\<close>

theorem getChatMessages_snapshot_then_read:
  assumes "findActiveParticipant d chatId userId = Some p"
    and "acceptedPaging page limit"
  shows "\<exists>pg d'. getChatMessages d chatId userId page limit = (Inr pg, d') \<and>
           mp_messages pg =
             rev (take (nat limit) (drop (nat ((page - 1) * limit))
                    (orderByCreatedAtDesc (messagesOf d chatId)))) \<and>
           set (mp_messages pg) \<subseteq> set (messagesOf d chatId) \<and>
           d' = d\<lparr>chatMessages := chatMessages d'\<rparr> \<and>
           length (chatMessages d') = length (chatMessages d) \<and>
           (\<forall>k < length (chatMessages d).
              chatMessages d' ! k =
                (if msg_chatId (chatMessages d ! k) = chatId \<and>
                    msg_receiverId (chatMessages d ! k) = userId
                 then (chatMessages d ! k)\<lparr>msg_isRead := True\<rparr>
                 else chatMessages d ! k)) \<and>
           unreadCount d' chatId userId = 0 \<and>
           (\<forall>it \<in> set (getChatList d' userId). cli_chatId it = chatId \<longrightarrow> cli_unreadCount it = 0) \<and>
           (chatId \<in> set (map chat_id (chats d)) \<longrightarrow>
              (\<exists>it \<in> set (getChatList d' userId). cli_chatId it = chatId))"
proof -
  let ?d' = "d\<lparr>chatMessages := map (markChatRead chatId userId) (chatMessages d)\<rparr>"
  let ?rows = "take (nat limit) (drop (nat ((page - 1) * limit))
                 (orderByCreatedAtDesc (messagesOf d chatId)))"
  let ?pg = "\<lparr>mp_messages = rev ?rows, mp_hasMore = (int (length ?rows) = limit),
             mp_page = page\<rparr>"
  have res: "getChatMessages d chatId userId page limit = (Inr ?pg, ?d')"
    by (rule getChatMessages_accepted [OF assms])
  have page: "mp_messages ?pg = rev ?rows" by simp
  have "set ?rows \<subseteq> set (orderByCreatedAtDesc (messagesOf d chatId))"
    using set_take_subset [of "nat limit" "drop (nat ((page - 1) * limit))
             (orderByCreatedAtDesc (messagesOf d chatId))"]
          set_drop_subset [of "nat ((page - 1) * limit)" "orderByCreatedAtDesc (messagesOf d chatId)"]
    by (rule subset_trans)
  then have sub: "set (mp_messages ?pg) \<subseteq> set (messagesOf d chatId)"
    by (simp add: orderByCreatedAtDesc_def)
  have frame: "?d' = d\<lparr>chatMessages := chatMessages ?d'\<rparr>" by simp
  have len: "length (chatMessages ?d') = length (chatMessages d)" by simp
  have rows: "\<forall>k < length (chatMessages d).
      chatMessages ?d' ! k =
        (if msg_chatId (chatMessages d ! k) = chatId \<and>
            msg_receiverId (chatMessages d ! k) = userId
         then (chatMessages d ! k)\<lparr>msg_isRead := True\<rparr>
         else chatMessages d ! k)"
    using markChatRead_rows [of "chatMessages d" chatId userId] by simp
  have zero: "unreadCount ?d' chatId userId = 0"
    by (rule unreadCount_after_mark)
  have items: "\<forall>it \<in> set (getChatList ?d' userId). cli_chatId it = chatId \<longrightarrow> cli_unreadCount it = 0"
    using getChatList_unreadCount [of _ ?d' userId] zero by auto
  have act: "findActiveParticipant ?d' chatId userId = Some p"
    using assms(1) by (simp add: findActiveParticipant_def)
  have listed: "chatId \<in> set (map chat_id (chats d)) \<longrightarrow>
      (\<exists>it \<in> set (getChatList ?d' userId). cli_chatId it = chatId)"
  proof
    assume "chatId \<in> set (map chat_id (chats d))"
    then obtain ch where "find (\<lambda>ch. chat_id ch = chatId) (chats ?d') = Some ch"
      by (cases "find (\<lambda>ch. chat_id ch = chatId) (chats d)") (auto simp: find_None_iff)
    from getChatList_lists_chat [OF act this]
    show "\<exists>it \<in> set (getChatList ?d' userId). cli_chatId it = chatId" .
  qed
  show ?thesis
    by (rule exI [of _ ?pg], rule exI [of _ ?d'], intro conjI)
       (fact res, fact page, fact sub, fact frame, fact len, fact rows, fact zero,
        fact items, fact listed)
qed

text \<open>
  In the example scenario: \<open>A\<close> has one unread message in \<open>R\<close> before the call; the
  page holds it as it was, unread; the stored row is the old row with the flag set; and
  the chat list of \<open>A\<close> then shows \<open>R\<close> with the count zero.
\<close>

theorem getChatMessages_snapshot_then_read_witness:
  "findActiveParticipant exampleDb ''R'' ''A''
     = Some \<lparr>cp_userId = ''A'', cp_chatId = ''R'', cp_joinedAt = 1, cp_isActive = True\<rparr> \<and>
   acceptedPaging 1 50 \<and>
   unreadCount exampleDb ''R'' ''A'' = 1 \<and>
   map_sum id mp_messages (fst (getChatMessages exampleDb ''R'' ''A'' 1 50))
     = Inr (chatMessages exampleDb) \<and>
   chatMessages (snd (getChatMessages exampleDb ''R'' ''A'' 1 50))
     = [(chatMessages exampleDb ! 0)\<lparr>msg_isRead := True\<rparr>] \<and>
   unreadCount (snd (getChatMessages exampleDb ''R'' ''A'' 1 50)) ''R'' ''A'' = 0 \<and>
   map cli_chatId (getChatList (snd (getChatMessages exampleDb ''R'' ''A'' 1 50)) ''A'') = [''R''] \<and>
   map cli_unreadCount (getChatList (snd (getChatMessages exampleDb ''R'' ''A'' 1 50)) ''A'') = [0]"
proof -
  have act: "findActiveParticipant exampleDb ''R'' ''A''
     = Some \<lparr>cp_userId = ''A'', cp_chatId = ''R'', cp_joinedAt = 1, cp_isActive = True\<rparr>"
    by code_simp
  have paging: "acceptedPaging 1 50" by (simp add: acceptedPaging_def)
  have before: "unreadCount exampleDb ''R'' ''A'' = 1" by code_simp
  have shape: "length (chatMessages exampleDb) = 1 \<and>
      msg_chatId (chatMessages exampleDb ! 0) = ''R'' \<and>
      msg_receiverId (chatMessages exampleDb ! 0) = ''A''"
    by code_simp
  have old: "rev (take (nat 50) (drop (nat ((1 - 1) * 50))
      (orderByCreatedAtDesc (messagesOf exampleDb ''R'')))) = chatMessages exampleDb"
    by code_simp
  obtain pg d' where res: "getChatMessages exampleDb ''R'' ''A'' 1 50 = (Inr pg, d')"
    and page: "mp_messages pg = rev (take (nat 50) (drop (nat ((1 - 1) * 50))
                    (orderByCreatedAtDesc (messagesOf exampleDb ''R''))))"
    and len: "length (chatMessages d') = length (chatMessages exampleDb)"
    and rows: "\<forall>k < length (chatMessages exampleDb).
              chatMessages d' ! k =
                (if msg_chatId (chatMessages exampleDb ! k) = ''R'' \<and>
                    msg_receiverId (chatMessages exampleDb ! k) = ''A''
                 then (chatMessages exampleDb ! k)\<lparr>msg_isRead := True\<rparr>
                 else chatMessages exampleDb ! k)"
    and zero: "unreadCount d' ''R'' ''A'' = 0"
    using getChatMessages_snapshot_then_read [OF act paging]
    by (elim exE conjE) (rule that; assumption)
  from res page old have returned:
    "map_sum id mp_messages (fst (getChatMessages exampleDb ''R'' ''A'' 1 50))
       = Inr (chatMessages exampleDb)"
    by simp
  from rows shape have "chatMessages d' ! 0 = (chatMessages exampleDb ! 0)\<lparr>msg_isRead := True\<rparr>"
    by simp
  moreover from len shape have "length (chatMessages d') = 1" by simp
  ultimately have "chatMessages d' = [(chatMessages exampleDb ! 0)\<lparr>msg_isRead := True\<rparr>]"
    by (cases "chatMessages d'") auto
  with res have stored: "chatMessages (snd (getChatMessages exampleDb ''R'' ''A'' 1 50))
     = [(chatMessages exampleDb ! 0)\<lparr>msg_isRead := True\<rparr>]"
    by simp
  from res zero have after:
    "unreadCount (snd (getChatMessages exampleDb ''R'' ''A'' 1 50)) ''R'' ''A'' = 0"
    by simp
  have ids: "map cli_chatId (getChatList (snd (getChatMessages exampleDb ''R'' ''A'' 1 50)) ''A'') = [''R'']"
    by code_simp
  have counts: "map cli_unreadCount (getChatList (snd (getChatMessages exampleDb ''R'' ''A'' 1 50)) ''A'') = [0]"
    by code_simp
  show ?thesis using act paging before returned stored after ids counts by simp
qed





subsection \<open>sendMessage\<close>

lemma sendMessage_cases:
  "(\<exists>e. sendMessage d chatId senderId receiverId content img env = (Inl e, d)) \<or>
   (sendMessage d chatId senderId receiverId content img env =
      (Inr \<lparr>msg_id = se_newId env, msg_content = content, msg_image = img,
            msg_isRead = False, msg_createdAt = se_createdAt env,
            msg_senderId = senderId, msg_receiverId = receiverId, msg_chatId = chatId\<rparr>,
       d\<lparr>chatMessages := chatMessages d @
            [\<lparr>msg_id = se_newId env, msg_content = content, msg_image = img,
              msg_isRead = False, msg_createdAt = se_createdAt env,
              msg_senderId = senderId, msg_receiverId = receiverId, msg_chatId = chatId\<rparr>],
          chats := map (\<lambda>c. if chat_id c = chatId then c\<lparr>chat_updatedAt := se_now env\<rparr> else c)
                     (chats d)\<rparr>) \<and>
    \<not> se_createFails env \<and> \<not> se_updateFails env \<and>
    chatId \<in> set (map chat_id (chats d)) \<and>
    se_newId env \<notin> set (map msg_id (chatMessages d)) \<and>
    findActiveParticipant d chatId senderId \<noteq> None \<and>
    findActiveParticipant d chatId receiverId \<noteq> None)"
  by (auto simp: sendMessage_def transaction_def chatMessage_create_def chat_update_def
           split: option.splits)


text \<open>
  Claim C7. When sender and receiver are active participants of the chat and the store
  performs both writes (the message key is new, the chat row exists, neither write
  fails), the send returns the new message, built from its arguments with the read flag
  false, and both effects are applied together: the message is the new last row of the
  message table and the chat row carries the new \<open>updatedAt\<close>; nothing else changes.
  In every other case the send fails and the store is exactly as before: no message row,
  the chat row unchanged. In particular, when the insert of the message would succeed
  and the update of the chat fails, the insert is discarded with it.
\<close>

theorem sendMessage_atomic:
  "(if findActiveParticipant d chatId senderId \<noteq> None \<and>
       findActiveParticipant d chatId receiverId \<noteq> None \<and>
       \<not> se_createFails env \<and> se_newId env \<notin> set (map msg_id (chatMessages d)) \<and>
       \<not> se_updateFails env \<and> chatId \<in> set (map chat_id (chats d))
    then sendMessage d chatId senderId receiverId content img env =
           (Inr \<lparr>msg_id = se_newId env, msg_content = content, msg_image = img,
                 msg_isRead = False, msg_createdAt = se_createdAt env,
                 msg_senderId = senderId, msg_receiverId = receiverId, msg_chatId = chatId\<rparr>,
            d\<lparr>chatMessages := chatMessages d @
                 [\<lparr>msg_id = se_newId env, msg_content = content, msg_image = img,
                   msg_isRead = False, msg_createdAt = se_createdAt env,
                   msg_senderId = senderId, msg_receiverId = receiverId,
                   msg_chatId = chatId\<rparr>],
               chats := map (\<lambda>c. if chat_id c = chatId then c\<lparr>chat_updatedAt := se_now env\<rparr>
                                   else c) (chats d)\<rparr>)
    else (\<exists>e. sendMessage d chatId senderId receiverId content img env = (Inl e, d))) \<and>
   (findActiveParticipant d chatId senderId \<noteq> None \<and>
    findActiveParticipant d chatId receiverId \<noteq> None \<and>
    \<not> se_createFails env \<and> se_newId env \<notin> set (map msg_id (chatMessages d)) \<and>
    (se_updateFails env \<or> chatId \<notin> set (map chat_id (chats d))) \<longrightarrow>
      sendMessage d chatId senderId receiverId content img env =
        (Inl (if se_updateFails env then StoreFailure else RecordNotFound), d))"
  by (auto simp: sendMessage_def transaction_def chatMessage_create_def chat_update_def
           split: option.splits)

text \<open>
  In the example scenario \<open>B\<close> sends to \<open>A\<close>. When the store performs both writes, the
  message is stored and the chat row is stamped. When the store fails the update of the
  chat row, the send fails and the store is as before, without the message.
\<close>

theorem sendMessage_atomic_witness:
  "sendMessage exampleDb ''R'' ''B'' ''A'' ''again'' None
      \<lparr>se_newId = ''m2'', se_createdAt = 7, se_now = 8,
       se_createFails = False, se_updateFails = False\<rparr>
     = (Inr \<lparr>msg_id = ''m2'', msg_content = ''again'', msg_image = None,
             msg_isRead = False, msg_createdAt = 7,
             msg_senderId = ''B'', msg_receiverId = ''A'', msg_chatId = ''R''\<rparr>,
        exampleDb\<lparr>chatMessages := chatMessages exampleDb @
             [\<lparr>msg_id = ''m2'', msg_content = ''again'', msg_image = None,
               msg_isRead = False, msg_createdAt = 7,
               msg_senderId = ''B'', msg_receiverId = ''A'', msg_chatId = ''R''\<rparr>],
           chats := [\<lparr>chat_id = ''R'', chat_eventId = ''E'', chat_createdAt = 1,
                      chat_updatedAt = 8\<rparr>]\<rparr>) \<and>
   sendMessage exampleDb ''R'' ''B'' ''A'' ''again'' None
      \<lparr>se_newId = ''m2'', se_createdAt = 7, se_now = 8,
       se_createFails = False, se_updateFails = True\<rparr>
     = (Inl StoreFailure, exampleDb)"
proof -
  let ?ok = "\<lparr>se_newId = ''m2'', se_createdAt = 7, se_now = 8,
       se_createFails = False, se_updateFails = False\<rparr>"
  let ?bad = "\<lparr>se_newId = ''m2'', se_createdAt = 7, se_now = 8,
       se_createFails = False, se_updateFails = True\<rparr>"
  have b: "findActiveParticipant exampleDb ''R'' ''B'' \<noteq> None" by code_simp
  have a: "findActiveParticipant exampleDb ''R'' ''A'' \<noteq> None" by code_simp
  have fresh: "''m2'' \<notin> set (map msg_id (chatMessages exampleDb))"
    by (simp add: exampleDb_def)
  have row: "''R'' \<in> set (map chat_id (chats exampleDb))"
    by (simp add: exampleDb_def)
  have both: "sendMessage exampleDb ''R'' ''B'' ''A'' ''again'' None ?ok
     = (Inr \<lparr>msg_id = ''m2'', msg_content = ''again'', msg_image = None,
             msg_isRead = False, msg_createdAt = 7,
             msg_senderId = ''B'', msg_receiverId = ''A'', msg_chatId = ''R''\<rparr>,
        exampleDb\<lparr>chatMessages := chatMessages exampleDb @
             [\<lparr>msg_id = ''m2'', msg_content = ''again'', msg_image = None,
               msg_isRead = False, msg_createdAt = 7,
               msg_senderId = ''B'', msg_receiverId = ''A'', msg_chatId = ''R''\<rparr>],
           chats := [\<lparr>chat_id = ''R'', chat_eventId = ''E'', chat_createdAt = 1,
                      chat_updatedAt = 8\<rparr>]\<rparr>)"
    using sendMessage_atomic [of exampleDb "''R''" "''B''" "''A''" ?ok "''again''" None,
            THEN conjunct1] a b fresh row
    by (simp add: exampleDb_def)
  have neither: "sendMessage exampleDb ''R'' ''B'' ''A'' ''again'' None ?bad
     = (Inl StoreFailure, exampleDb)"
    using sendMessage_atomic [of exampleDb "''R''" "''B''" "''A''" ?bad "''again''" None,
            THEN conjunct2] a b fresh
    by simp
  show ?thesis using both neither by simp
qed

text \<open>
  Claim C2. When the sender or the receiver is not an active participant of the chat,
  the service call fails (``Sender not authorized for this chat'' when the sender is
  not one, ``Receiver not found in this chat'' otherwise) and leaves the store as it
  was; and the gateway's \<open>sendMessage\<close> handler, called on the socket of that sender,
  emits exactly one event, an \<open>error\<close> to that socket: no \<open>newMessage\<close>, no
  \<open>messageNotification\<close>, and no other change of the gateway or the store.
\<close>

theorem sendMessage_rejects_non_participants:
  assumes "findActiveParticipant d chatId senderId = None \<or>
           findActiveParticipant d chatId receiverId = None"
  shows "sendMessage d chatId senderId receiverId content img env =
           (Inl (if findActiveParticipant d chatId senderId = None
                 then SenderNotAuthorized else ReceiverNotFound), d) \<and>
         (sock_userId client = Some senderId \<and> senderId \<noteq> [] \<longrightarrow>
            handleSendMessage g d client chatId receiverId content img env =
              (g\<lparr>emitted := emitted g @
                   [ToClient (sock_id client) (ErrorEvent ''Failed to send message'')]\<rparr>, d))"
  using assms
  by (auto simp: sendMessage_def handleSendMessage_def truthy_def emit_def split: option.splits)


text \<open>
  In the example scenario \<open>M\<close> is not a participant of \<open>R\<close>. A send by \<open>M\<close> to \<open>A\<close> is
  rejected for the sender, a send by \<open>B\<close> to \<open>M\<close> for the receiver; the store is
  unchanged, and the socket of \<open>M\<close> gets the one \<open>error\<close> event.
\<close>

theorem sendMessage_rejects_non_participants_witness:
  "findActiveParticipant exampleDb ''R'' ''M'' = None \<and>
   sendMessage exampleDb ''R'' ''M'' ''A'' ''hi'' None
      \<lparr>se_newId = ''m2'', se_createdAt = 7, se_now = 8,
       se_createFails = False, se_updateFails = False\<rparr>
     = (Inl SenderNotAuthorized, exampleDb) \<and>
   sendMessage exampleDb ''R'' ''B'' ''M'' ''hi'' None
      \<lparr>se_newId = ''m2'', se_createdAt = 7, se_now = 8,
       se_createFails = False, se_updateFails = False\<rparr>
     = (Inl ReceiverNotFound, exampleDb) \<and>
   handleSendMessage emptyGateway exampleDb (authSocket ''s3'' ''M'') ''R'' ''A'' ''hi'' None
      \<lparr>se_newId = ''m2'', se_createdAt = 7, se_now = 8,
       se_createFails = False, se_updateFails = False\<rparr>
     = (emptyGateway\<lparr>emitted := [ToClient ''s3'' (ErrorEvent ''Failed to send message'')]\<rparr>,
        exampleDb)"
proof -
  let ?env = "\<lparr>se_newId = ''m2'', se_createdAt = 7, se_now = 8,
       se_createFails = False, se_updateFails = False\<rparr>"
  have m: "findActiveParticipant exampleDb ''R'' ''M'' = None" by code_simp
  have b: "findActiveParticipant exampleDb ''R'' ''B'' \<noteq> None" by code_simp
  have s: "sock_userId (authSocket ''s3'' ''M'') = Some ''M''" "sock_id (authSocket ''s3'' ''M'') = ''s3''"
    by (simp_all add: authSocket_def newSocket_def)
  have e: "emitted emptyGateway = []" by (simp add: emptyGateway_def)
  have one: "sendMessage exampleDb ''R'' ''M'' ''A'' ''hi'' None ?env
      = (Inl SenderNotAuthorized, exampleDb)"
    using sendMessage_rejects_non_participants
      [of exampleDb "''R''" "''M''" "''A''" "''hi''" None ?env] m by simp
  have two: "sendMessage exampleDb ''R'' ''B'' ''M'' ''hi'' None ?env
      = (Inl ReceiverNotFound, exampleDb)"
    using sendMessage_rejects_non_participants
      [of exampleDb "''R''" "''B''" "''M''" "''hi''" None ?env] m b by simp
  have three: "handleSendMessage emptyGateway exampleDb (authSocket ''s3'' ''M'') ''R'' ''A'' ''hi'' None ?env
     = (emptyGateway\<lparr>emitted := [ToClient ''s3'' (ErrorEvent ''Failed to send message'')]\<rparr>,
        exampleDb)"
    using sendMessage_rejects_non_participants
      [of exampleDb "''R''" "''M''" "''A''" "''hi''" None ?env "authSocket ''s3'' ''M''" emptyGateway]
      m s e by simp
  show ?thesis using m one two three by simp
qed

subsection \<open>The read flag over sequences of calls\<close>

lemma setRead_read: "msg_isRead m \<Longrightarrow> m\<lparr>msg_isRead := True\<rparr> = m"
  by simp

lemma map_keeps_read:
  assumes "\<And>m. f m = m \<or> f m = m\<lparr>msg_isRead := True\<rparr>"
    and "k < length ms" and "msg_isRead (ms ! k)"
  shows "map f ms ! k = ms ! k"
  using assms(1) [of "ms ! k"] assms(2,3) by auto

lemma step_keeps_read:
  assumes k: "k < length (chatMessages d)" and r: "msg_isRead (chatMessages d ! k)"
  shows "k < length (chatMessages (step d c)) \<and>
         chatMessages (step d c) ! k = chatMessages d ! k"
proof (cases c)
  case (SendMessage chatId senderId receiverId content img env)
  then show ?thesis
    using sendMessage_cases [of d chatId senderId receiverId content img env] k
    by (auto simp: nth_append)
next
  case (GetChatMessages chatId userId page limit)
  have f: "\<And>m. markChatRead chatId userId m = m \<or>
            markChatRead chatId userId m = m\<lparr>msg_isRead := True\<rparr>"
    by (simp add: markChatRead_def)
  have "chatMessages (step d c) = chatMessages d \<or>
      chatMessages (step d c) = map (markChatRead chatId userId) (chatMessages d)"
    using GetChatMessages
    by (auto simp: getChatMessages_def Let_def split: option.splits sum.splits)
  then show ?thesis
    using map_keeps_read [of "markChatRead chatId userId", OF f k r] k by auto
next
  case (MarkMessageAsRead messageId userId)
  let ?f = "\<lambda>m. if msg_id m = messageId then m\<lparr>msg_isRead := True\<rparr> else m"
  have f: "\<And>m. ?f m = m \<or> ?f m = m\<lparr>msg_isRead := True\<rparr>" by simp
  have "chatMessages (step d c) = chatMessages d \<or>
      chatMessages (step d c) = map ?f (chatMessages d)"
    using MarkMessageAsRead
    by (auto simp: markMessageAsRead_def split: option.splits)
  then show ?thesis
    using map_keeps_read [of ?f, OF f k r] k by auto
next
  case (GetOrCreateChat eventId participantId hostId env)
  then have "chatMessages (step d c) = chatMessages d"
    by (auto simp: getOrCreateChat_def createChat_def Let_def split: sum.splits option.splits)
  then show ?thesis using k by simp
qed

lemma run_keeps_read:
  "k < length (chatMessages d) \<Longrightarrow> msg_isRead (chatMessages d ! k) \<Longrightarrow>
   k < length (chatMessages (run d cs)) \<and> chatMessages (run d cs) ! k = chatMessages d ! k"
proof (induction cs arbitrary: d)
  case Nil
  then show ?case by simp
next
  case (Cons c cs)
  from step_keeps_read [OF Cons.prems, of c]
  have k: "k < length (chatMessages (step d c))"
    and same: "chatMessages (step d c) ! k = chatMessages d ! k"
    by simp_all
  from Cons.prems(2) same have "msg_isRead (chatMessages (step d c) ! k)" by simp
  from Cons.IH [OF k this] same show ?case by simp
qed


lemma run_append: "run d (cs1 @ cs2) = run (run d cs1) cs2"
  by (induction cs1 arbitrary: d) simp_all

text \<open>
  Claim C9. Take any sequence of calls of \<open>sendMessage\<close>, \<open>getChatMessages\<close>,
  \<open>markMessageAsRead\<close> (and \<open>getOrCreateChat\<close>), with any arguments, succeeding or
  failing, and any row of the message table whose read flag is true after it. Whatever
  calls follow, the row stays where it is and stays the same row, read flag included:
  no call sets the flag back. And a message that \<open>sendMessage\<close> creates is appended
  with the flag false.
\<close>

theorem read_flag_monotonic:
  "(k < length (chatMessages (run d cs1)) \<and> msg_isRead (chatMessages (run d cs1) ! k) \<longrightarrow>
      k < length (chatMessages (run d (cs1 @ cs2))) \<and>
      chatMessages (run d (cs1 @ cs2)) ! k = chatMessages (run d cs1) ! k \<and>
      msg_isRead (chatMessages (run d (cs1 @ cs2)) ! k)) \<and>
   (\<forall>m d'. sendMessage d chatId senderId receiverId content img env = (Inr m, d') \<longrightarrow>
      \<not> msg_isRead m \<and> chatMessages d' = chatMessages d @ [m])"
proof (intro conjI impI allI)
  assume a: "k < length (chatMessages (run d cs1)) \<and> msg_isRead (chatMessages (run d cs1) ! k)"
  then have k: "k < length (chatMessages (run d cs1))"
    and r: "msg_isRead (chatMessages (run d cs1) ! k)" by simp_all
  from run_keeps_read [OF k r, of cs2]
  show "k < length (chatMessages (run d (cs1 @ cs2)))"
    and same: "chatMessages (run d (cs1 @ cs2)) ! k = chatMessages (run d cs1) ! k"
    by (simp_all add: run_append)
  from same r show "msg_isRead (chatMessages (run d (cs1 @ cs2)) ! k)" by simp
next
  fix m d'
  assume s: "sendMessage d chatId senderId receiverId content img env = (Inr m, d')"
  with sendMessage_cases [of d chatId senderId receiverId content img env]
  show "\<not> msg_isRead m" by auto
  from s sendMessage_cases [of d chatId senderId receiverId content img env]
  show "chatMessages d' = chatMessages d @ [m]" by auto
qed

text \<open>
  In the example scenario: \<open>A\<close> fetches the history, which marks \<open>m1\<close>; then \<open>B\<close> sends
  again, \<open>B\<close> tries to mark \<open>m1\<close>, \<open>A\<close> marks it, and \<open>B\<close> fetches the history. \<open>m1\<close>
  is read after the first call and after the last; the new message starts unread.
\<close>

theorem read_flag_monotonic_witness:
  "0 < length (chatMessages (run exampleDb [GetChatMessages ''R'' ''A'' 1 50])) \<and>
   msg_isRead (chatMessages (run exampleDb [GetChatMessages ''R'' ''A'' 1 50]) ! 0) \<and>
   msg_isRead (chatMessages (run exampleDb
      ([GetChatMessages ''R'' ''A'' 1 50] @
       [SendMessage ''R'' ''B'' ''A'' ''again'' None
          \<lparr>se_newId = ''m2'', se_createdAt = 7, se_now = 8,
           se_createFails = False, se_updateFails = False\<rparr>,
        MarkMessageAsRead ''m1'' ''B'',
        MarkMessageAsRead ''m1'' ''A'',
        GetChatMessages ''R'' ''B'' 1 50])) ! 0) \<and>
   map msg_isRead (chatMessages (run exampleDb
      ([GetChatMessages ''R'' ''A'' 1 50] @
       [SendMessage ''R'' ''B'' ''A'' ''again'' None
          \<lparr>se_newId = ''m2'', se_createdAt = 7, se_now = 8,
           se_createFails = False, se_updateFails = False\<rparr>,
        MarkMessageAsRead ''m1'' ''B'',
        MarkMessageAsRead ''m1'' ''A'',
        GetChatMessages ''R'' ''B'' 1 50]))) = [True, False]"
proof -
  let ?cs1 = "[GetChatMessages ''R'' ''A'' 1 50]"
  let ?cs2 = "[SendMessage ''R'' ''B'' ''A'' ''again'' None
          \<lparr>se_newId = ''m2'', se_createdAt = 7, se_now = 8,
           se_createFails = False, se_updateFails = False\<rparr>,
        MarkMessageAsRead ''m1'' ''B'',
        MarkMessageAsRead ''m1'' ''A'',
        GetChatMessages ''R'' ''B'' 1 50]"
  have k: "0 < length (chatMessages (run exampleDb ?cs1))" by code_simp
  have r: "msg_isRead (chatMessages (run exampleDb ?cs1) ! 0)" by code_simp
  have later: "msg_isRead (chatMessages (run exampleDb (?cs1 @ ?cs2)) ! 0)"
    using read_flag_monotonic [of 0 exampleDb ?cs1 ?cs2] k r by blast
  have flags: "map msg_isRead (chatMessages (run exampleDb (?cs1 @ ?cs2))) = [True, False]"
    by code_simp
  show ?thesis using k r later flags by blast
qed

subsection \<open>getOrCreateChat: authorization\<close>

lemma find_None_ball: "find P xs = None \<longleftrightarrow> (\<forall>x \<in> set xs. \<not> P x)"
  by (auto simp: find_None_iff)

text \<open>
  Claim C1 says that both users are validated and that the call fails when the
  validation of either fails. The guard passes as soon as one of the two users is the
  creator of the event or has a participant row: in the example scenario \<open>M\<close> is
  neither the creator of \<open>E\<close> nor a participant, and the call for \<open>M\<close> and the host
  \<open>A\<close> creates a chat with the two participant rows.
\<close>

theorem getOrCreateChat_admits_outsider:
  "map event_creatorId (events exampleDb) = [''A''] \<and>
   map ep_userId (eventParticipants exampleDb) = [''B''] \<and>
   map_sum id (map cp_userId \<circ> cv_participants)
     (fst (getOrCreateChat exampleDb ''E'' ''M'' ''A'' \<lparr>ce_newId = ''R2'', ce_now = 9\<rparr>))
     = Inr [''M'', ''A''] \<and>
   map chat_id (chats (snd (getOrCreateChat exampleDb ''E'' ''M'' ''A''
      \<lparr>ce_newId = ''R2'', ce_now = 9\<rparr>))) = [''R'', ''R2''] \<and>
   map cp_userId (participantsOf (snd (getOrCreateChat exampleDb ''E'' ''M'' ''A''
      \<lparr>ce_newId = ''R2'', ce_now = 9\<rparr>)) ''R2'') = [''M'', ''A'']"
  by code_simp

text \<open>
  Claim C1, as the code has it. The call validates that at least one of the two users
  is authorized for the event, as its creator or through a participant row of any
  status. When the event does not exist the call fails with ``Event not found''; when
  the event exists and neither user is its creator or has a participant row, it fails
  with ``User not authorized for this event''. In both cases the store is unchanged:
  no chat and no participant row is created. When one of the two users is the creator
  or has a participant row, the call does not fail with the authorization error.
\<close>

theorem getOrCreateChat_authorization:
  "(find (\<lambda>e. event_id e = eventId) (events d) = None \<longrightarrow>
      getOrCreateChat d eventId participantId hostId env = (Inl EventNotFound, d)) \<and>
   (\<forall>ev. find (\<lambda>e. event_id e = eventId) (events d) = Some ev \<longrightarrow>
      (event_creatorId ev \<notin> {participantId, hostId} \<and>
       (\<forall>p \<in> set (eventParticipants d).
          ep_eventId p = eventId \<longrightarrow> ep_userId p \<notin> {participantId, hostId}) \<longrightarrow>
         getOrCreateChat d eventId participantId hostId env = (Inl UserNotAuthorizedForEvent, d)) \<and>
      (event_creatorId ev \<in> {participantId, hostId} \<or>
       (\<exists>p \<in> set (eventParticipants d).
          ep_eventId p = eventId \<and> ep_userId p \<in> {participantId, hostId}) \<longrightarrow>
         fst (getOrCreateChat d eventId participantId hostId env) \<noteq> Inl UserNotAuthorizedForEvent \<and>
         fst (getOrCreateChat d eventId participantId hostId env) \<noteq> Inl EventNotFound))"
proof (intro conjI impI allI)
  assume "find (\<lambda>e. event_id e = eventId) (events d) = None"
  then show "getOrCreateChat d eventId participantId hostId env = (Inl EventNotFound, d)"
    by (simp add: getOrCreateChat_def authorizeForEvent_def)
next
  fix ev
  assume ev: "find (\<lambda>e. event_id e = eventId) (events d) = Some ev"
    and no: "event_creatorId ev \<notin> {participantId, hostId} \<and>
       (\<forall>p \<in> set (eventParticipants d).
          ep_eventId p = eventId \<longrightarrow> ep_userId p \<notin> {participantId, hostId})"
  from no have "find (\<lambda>p. ep_eventId p = eventId \<and> ep_userId p \<in> set [participantId, hostId])
      (eventParticipants d) = None"
    by (auto simp: find_None_ball)
  with ev no show "getOrCreateChat d eventId participantId hostId env
      = (Inl UserNotAuthorizedForEvent, d)"
    by (simp add: getOrCreateChat_def authorizeForEvent_def)
next
  fix ev
  assume ev: "find (\<lambda>e. event_id e = eventId) (events d) = Some ev"
    and yes: "event_creatorId ev \<in> {participantId, hostId} \<or>
       (\<exists>p \<in> set (eventParticipants d).
          ep_eventId p = eventId \<and> ep_userId p \<in> {participantId, hostId})"
  from yes have ok: "event_creatorId ev = participantId \<or> event_creatorId ev = hostId \<or>
      find (\<lambda>p. ep_eventId p = eventId \<and> ep_userId p \<in> set [participantId, hostId])
        (eventParticipants d) \<noteq> None"
    by (auto simp: find_None_ball)
  then have auth: "authorizeForEvent d eventId participantId hostId = Inr ()"
    using ev by (auto simp: authorizeForEvent_def)
  have "\<exists>r. fst (getOrCreateChat d eventId participantId hostId env) = Inr r \<or>
      fst (getOrCreateChat d eventId participantId hostId env) = Inl UniqueConstraintFailed"
    using auth
    by (auto simp: getOrCreateChat_def createChat_def Let_def split: option.splits)
  then show "fst (getOrCreateChat d eventId participantId hostId env) \<noteq> Inl UserNotAuthorizedForEvent"
    and "fst (getOrCreateChat d eventId participantId hostId env) \<noteq> Inl EventNotFound"
    by auto
qed

text \<open>
  In the example scenario: \<open>M\<close> and \<open>N\<close> are strangers to \<open>E\<close> and get the
  authorization error; an unknown event gives ``Event not found''; both leave the store
  as it was. \<open>B\<close>, a participant of \<open>E\<close>, passes the guard with the stranger \<open>M\<close>.
\<close>

theorem getOrCreateChat_authorization_witness:
  "getOrCreateChat exampleDb ''E'' ''M'' ''N'' \<lparr>ce_newId = ''R2'', ce_now = 9\<rparr>
     = (Inl UserNotAuthorizedForEvent, exampleDb) \<and>
   getOrCreateChat exampleDb ''E0'' ''A'' ''B'' \<lparr>ce_newId = ''R2'', ce_now = 9\<rparr>
     = (Inl EventNotFound, exampleDb) \<and>
   fst (getOrCreateChat exampleDb ''E'' ''B'' ''M'' \<lparr>ce_newId = ''R2'', ce_now = 9\<rparr>)
     \<noteq> Inl UserNotAuthorizedForEvent"
proof -
  let ?env = "\<lparr>ce_newId = ''R2'', ce_now = 9\<rparr>"
  have e: "find (\<lambda>e. event_id e = ''E'') (events exampleDb)
      = Some \<lparr>event_id = ''E'', event_creatorId = ''A''\<rparr>"
    by (simp add: exampleDb_def)
  have e0: "find (\<lambda>e. event_id e = ''E0'') (events exampleDb) = None"
    by (simp add: exampleDb_def)
  have ps: "eventParticipants exampleDb
      = [\<lparr>ep_userId = ''B'', ep_eventId = ''E'', ep_status = JOINED\<rparr>]"
    by (simp add: exampleDb_def)
  have one: "getOrCreateChat exampleDb ''E'' ''M'' ''N'' ?env
      = (Inl UserNotAuthorizedForEvent, exampleDb)"
    using getOrCreateChat_authorization [of "''E''" exampleDb "''M''" "''N''" ?env] e ps
    by simp
  have two: "getOrCreateChat exampleDb ''E0'' ''A'' ''B'' ?env = (Inl EventNotFound, exampleDb)"
    using getOrCreateChat_authorization [of "''E0''" exampleDb "''A''" "''B''" ?env] e0
    by simp
  have three: "fst (getOrCreateChat exampleDb ''E'' ''B'' ''M'' ?env)
      \<noteq> Inl UserNotAuthorizedForEvent"
    using getOrCreateChat_authorization [of "''E''" exampleDb "''B''" "''M''" ?env] e ps
    by simp
  show ?thesis using one two three by simp
qed

subsection \<open>getOrCreateChat: one room per pair\<close>

lemma getOrCreateChat_phases:
  "getOrCreateChat d eventId participantId hostId env =
     writePhase (readPhase d eventId participantId hostId) d eventId participantId hostId env"
  by (simp add: getOrCreateChat_def readPhase_def writePhase_def split: sum.splits option.splits)

text \<open>
  Claim C6 says that concurrent calls for one pair create at most one room. Nothing
  makes the reads and the write of a call atomic: when the call for \<open>A\<close> and \<open>B\<close> and
  the call for \<open>B\<close> and \<open>A\<close> have both looked for the room before either creates it,
  each creates one, and the event has two rooms for the pair.
\<close>

theorem overlapping_calls_create_two_rooms:
  "wf_chats freshDb \<and>
   map_sum id (chat_id \<circ> cv_chat)
     (fst (overlappedCalls freshDb ''E'' ''A'' ''B'' \<lparr>ce_newId = ''R1'', ce_now = 5\<rparr>
             ''B'' ''A'' \<lparr>ce_newId = ''R2'', ce_now = 6\<rparr>)) = Inr ''R1'' \<and>
   map_sum id (chat_id \<circ> cv_chat)
     (fst (snd (overlappedCalls freshDb ''E'' ''A'' ''B'' \<lparr>ce_newId = ''R1'', ce_now = 5\<rparr>
             ''B'' ''A'' \<lparr>ce_newId = ''R2'', ce_now = 6\<rparr>))) = Inr ''R2'' \<and>
   map (\<lambda>c. (chat_id c, chat_eventId c))
     (chats (snd (snd (overlappedCalls freshDb ''E'' ''A'' ''B'' \<lparr>ce_newId = ''R1'', ce_now = 5\<rparr>
             ''B'' ''A'' \<lparr>ce_newId = ''R2'', ce_now = 6\<rparr>))))
     = [(''R1'', ''E''), (''R2'', ''E'')] \<and>
   map (\<lambda>p. (cp_chatId p, cp_userId p))
     (chatParticipants (snd (snd (overlappedCalls freshDb ''E'' ''A'' ''B'' \<lparr>ce_newId = ''R1'', ce_now = 5\<rparr>
             ''B'' ''A'' \<lparr>ce_newId = ''R2'', ce_now = 6\<rparr>))))
     = [(''R1'', ''A''), (''R1'', ''B''), (''R2'', ''B''), (''R2'', ''A'')]"
  by code_simp

lemma authorizeForEvent_sym:
  "authorizeForEvent d eventId b a = authorizeForEvent d eventId a b"
proof -
  have eq: "set [b, a] = set [a, b]" by auto
  have "authorizeForEvent d eventId b a =
     (case find (\<lambda>e. event_id e = eventId) (events d) of
        None \<Rightarrow> Inl EventNotFound
      | Some ev \<Rightarrow>
          (let isHost = (event_creatorId ev = a \<or> event_creatorId ev = b);
               isParticipant = find
                 (\<lambda>p. ep_eventId p = eventId \<and> ep_userId p \<in> set [a, b])
                 (eventParticipants d)
           in if \<not> isHost \<and> isParticipant = None then Inl UserNotAuthorizedForEvent
              else Inr ()))"
    unfolding authorizeForEvent_def eq by (simp only: disj_commute)
  then show ?thesis unfolding authorizeForEvent_def .
qed

lemma findExistingChat_sym:
  "findExistingChat d eventId b a = findExistingChat d eventId a b"
proof -
  have eq: "set [b, a] = set [a, b]" by auto
  show ?thesis unfolding findExistingChat_def eq ..
qed

lemma readPhase_sym: "readPhase d eventId b a = readPhase d eventId a b"
  unfolding readPhase_def authorizeForEvent_sym [of d eventId b a]
    findExistingChat_sym [of d eventId b a] ..


lemma find_cong_set: "(\<And>x. x \<in> set xs \<Longrightarrow> P x = Q x) \<Longrightarrow> find P xs = find Q xs"
  by (induction xs) auto

lemma find_map_inv: "(\<And>x. P (f x) = P x) \<Longrightarrow> find P (map f xs) = map_option f (find P xs)"
  by (induction xs) auto

lemma find_snoc: "find P (xs @ [y]) = (case find P xs of None \<Rightarrow> (if P y then Some y else None) | Some x \<Rightarrow> Some x)"
  by (induction xs) auto

lemma find_in_set: "find P xs = Some x \<Longrightarrow> x \<in> set xs \<and> P x"
  by (induction xs) (auto split: if_splits)

lemma wf_chats_no_orphans:
  "wf_chats d \<Longrightarrow> k \<notin> set (map chat_id (chats d)) \<Longrightarrow> participantsOf d k = []"
  by (auto simp: wf_chats_def participantsOf_def list_all_iff filter_empty_conv)

lemma wf_chats_two:
  "wf_chats d \<Longrightarrow> c \<in> set (chats d) \<Longrightarrow> length (participantsOf d (chat_id c)) = 2"
  by (simp add: wf_chats_def list_all_iff)

lemma findExistingChat_None_wf:
  assumes "wf_chats d" and "findExistingChat d e a b = None"
  shows "find (\<lambda>c. chat_eventId c = e \<and>
             list_all (\<lambda>p. cp_userId p \<in> set [a, b]) (participantsOf d (chat_id c)))
           (chats d) = None"
proof (rule ccontr)
  assume "find (\<lambda>c. chat_eventId c = e \<and>
             list_all (\<lambda>p. cp_userId p \<in> set [a, b]) (participantsOf d (chat_id c)))
           (chats d) \<noteq> None"
  then obtain c where c: "find (\<lambda>c. chat_eventId c = e \<and>
             list_all (\<lambda>p. cp_userId p \<in> set [a, b]) (participantsOf d (chat_id c)))
           (chats d) = Some c" by blast
  then have "c \<in> set (chats d)" by (auto dest: find_in_set)
  with assms(1) have "length (participantsOf d (chat_id c)) = 2" by (rule wf_chats_two)
  with c assms(2) show False by (simp add: findExistingChat_def)
qed

lemma findExistingChat_Some:
  assumes "findExistingChat d e a b = Some v"
  shows "find (\<lambda>c. chat_eventId c = e \<and>
             list_all (\<lambda>p. cp_userId p \<in> set [a, b]) (participantsOf d (chat_id c)))
           (chats d) = Some (cv_chat v) \<and>
         cv_participants v = participantsOf d (chat_id (cv_chat v)) \<and>
         length (participantsOf d (chat_id (cv_chat v))) = 2"
  using assms by (auto simp: findExistingChat_def split: option.splits if_splits)


text \<open>The effect of a new chat with its two participant rows.\<close>

lemma append_room:
  assumes wf: "wf_chats d"
    and ch: "chats d' = chats d @ [cn]"
    and ps: "chatParticipants d' = chatParticipants d @ [p1, p2]"
    and fresh: "chat_id cn \<notin> set (map chat_id (chats d))"
    and k1: "cp_chatId p1 = chat_id cn" and k2: "cp_chatId p2 = chat_id cn"
  shows "wf_chats d'"
    and "findExistingChat d e a b = Some v \<Longrightarrow> findExistingChat d' e a b = Some v"
    and "findExistingChat d e a b = None \<Longrightarrow> chat_eventId cn = e \<Longrightarrow>
         cp_userId p1 \<in> set [a, b] \<Longrightarrow> cp_userId p2 \<in> set [a, b] \<Longrightarrow>
         findExistingChat d' e a b = Some \<lparr>cv_chat = cn, cv_participants = [p1, p2]\<rparr>"
proof -
  let ?P = "\<lambda>c. chat_eventId c = e \<and>
     list_all (\<lambda>p. cp_userId p \<in> set [a, b]) (participantsOf d (chat_id c))"
  let ?P' = "\<lambda>c. chat_eventId c = e \<and>
     list_all (\<lambda>p. cp_userId p \<in> set [a, b]) (participantsOf d' (chat_id c))"
  have orphan: "participantsOf d (chat_id cn) = []"
    using wf fresh by (rule wf_chats_no_orphans)
  have new: "participantsOf d' (chat_id cn) = [p1, p2]"
    using orphan k1 k2 by (simp add: participantsOf_def ps)
  have old: "participantsOf d' (chat_id c) = participantsOf d (chat_id c)"
    if "c \<in> set (chats d)" for c
  proof -
    from that have "chat_id c \<in> set (map chat_id (chats d))" by simp
    with fresh have "chat_id c \<noteq> chat_id cn" by metis
    then show ?thesis using k1 k2 by (simp add: participantsOf_def ps)
  qed
  have refs: "list_all (\<lambda>p. cp_chatId p \<in> set (map chat_id (chats d'))) (chatParticipants d')"
    using wf k1 k2 by (auto simp: wf_chats_def list_all_iff ch ps)
  have twos: "list_all (\<lambda>c. length (participantsOf d' (chat_id c)) = 2) (chats d')"
    using wf new old by (auto simp: wf_chats_def list_all_iff ch)
  from refs twos show "wf_chats d'" by (simp add: wf_chats_def)
  have same: "find ?P' (chats d) = find ?P (chats d)"
    by (rule find_cong_set) (simp add: old)
  {
    assume "findExistingChat d e a b = Some v"
    from findExistingChat_Some [OF this]
    have f: "find ?P (chats d) = Some (cv_chat v)"
      and p: "cv_participants v = participantsOf d (chat_id (cv_chat v))"
      and l: "length (participantsOf d (chat_id (cv_chat v))) = 2" by simp_all
    from f have "cv_chat v \<in> set (chats d)" by (auto dest: find_in_set)
    then have o: "participantsOf d' (chat_id (cv_chat v)) = participantsOf d (chat_id (cv_chat v))"
      by (rule old)
    have "find ?P' (chats d') = Some (cv_chat v)"
      unfolding ch find_snoc same f by simp
    then show "findExistingChat d' e a b = Some v"
      unfolding findExistingChat_def using o l p by simp
  }
  {
    assume none: "findExistingChat d e a b = None" and ev: "chat_eventId cn = e"
      and u1: "cp_userId p1 \<in> set [a, b]" and u2: "cp_userId p2 \<in> set [a, b]"
    from findExistingChat_None_wf [OF wf none] have f: "find ?P (chats d) = None" .
    have pcn: "?P' cn" using ev u1 u2 new by simp
    have "find ?P' (chats d') = Some cn"
      unfolding ch find_snoc same f using pcn by simp
    then show "findExistingChat d' e a b = Some \<lparr>cv_chat = cn, cv_participants = [p1, p2]\<rparr>"
      unfolding findExistingChat_def using new by simp
  }
qed

text \<open>The effect of a new \<open>updatedAt\<close> on a chat row.\<close>

lemma stamp_room:
  assumes wf: "wf_chats d"
    and ch: "chats d' = map (\<lambda>c. if chat_id c = k then c\<lparr>chat_updatedAt := t\<rparr> else c) (chats d)"
    and ps: "chatParticipants d' = chatParticipants d"
  shows "wf_chats d'"
    and "findExistingChat d e a b = Some v \<Longrightarrow>
         \<exists>v'. findExistingChat d' e a b = Some v' \<and>
              chat_id (cv_chat v') = chat_id (cv_chat v) \<and>
              cv_participants v' = cv_participants v"
proof -
  let ?f = "\<lambda>c. if chat_id c = k then c\<lparr>chat_updatedAt := t\<rparr> else c"
  let ?P = "\<lambda>c. chat_eventId c = e \<and>
     list_all (\<lambda>p. cp_userId p \<in> set [a, b]) (participantsOf d (chat_id c))"
  have pd: "participantsOf d' x = participantsOf d x" for x
    by (simp add: participantsOf_def ps)
  have ids: "map chat_id (chats d') = map chat_id (chats d)"
    by (simp add: ch)
  have "set (map chat_id (chats d')) = set (map chat_id (chats d))"
    by (simp only: ids)
  then show "wf_chats d'"
    using wf by (auto simp: wf_chats_def list_all_iff pd ps ch)
  {
    assume "findExistingChat d e a b = Some v"
    from findExistingChat_Some [OF this]
    have f: "find ?P (chats d) = Some (cv_chat v)"
      and p: "cv_participants v = participantsOf d (chat_id (cv_chat v))"
      and l: "length (participantsOf d (chat_id (cv_chat v))) = 2" by simp_all
    have inv: "?P (?f x) = ?P x" for x by simp
    have "find ?P (map ?f (chats d)) = map_option ?f (find ?P (chats d))"
      by (rule find_map_inv) (rule inv)
    with f have found: "find ?P (chats d') = Some (?f (cv_chat v))"
      by (simp only: ch option.map)
    obtain c' where c': "c' = ?f (cv_chat v)" by simp
    then have cid: "chat_id c' = chat_id (cv_chat v)" by simp
    from found c' have "find ?P (chats d') = Some c'" by simp
    then have "findExistingChat d' e a b = Some \<lparr>cv_chat = c', cv_participants = cv_participants v\<rparr>"
      unfolding findExistingChat_def pd using l p cid by simp
    with cid show "\<exists>v'. findExistingChat d' e a b = Some v' \<and>
              chat_id (cv_chat v') = chat_id (cv_chat v) \<and>
              cv_participants v' = cv_participants v"
      by simp
  }
qed

lemma same_rooms:
  assumes "chats d' = chats d" and "chatParticipants d' = chatParticipants d"
  shows "wf_chats d' = wf_chats d" and "findExistingChat d' e a b = findExistingChat d e a b"
proof -
  have pd: "participantsOf d' = participantsOf d"
    by (simp add: fun_eq_iff participantsOf_def assms(2))
  show "wf_chats d' = wf_chats d"
    unfolding wf_chats_def pd assms ..
  show "findExistingChat d' e a b = findExistingChat d e a b"
    unfolding findExistingChat_def pd assms ..
qed


lemma createChat_cases:
  "(\<exists>x. createChat d e a b env = (Inl x, d)) \<or>
   (ce_newId env \<notin> set (map chat_id (chats d)) \<and>
    createChat d e a b env =
      (Inr \<lparr>cv_chat = \<lparr>chat_id = ce_newId env, chat_eventId = e,
                       chat_createdAt = ce_now env, chat_updatedAt = ce_now env\<rparr>,
            cv_participants = participantsOf
               (d\<lparr>chats := chats d @
                     [\<lparr>chat_id = ce_newId env, chat_eventId = e,
                       chat_createdAt = ce_now env, chat_updatedAt = ce_now env\<rparr>],
                  chatParticipants := chatParticipants d @
                     [\<lparr>cp_userId = a, cp_chatId = ce_newId env,
                       cp_joinedAt = ce_now env, cp_isActive = True\<rparr>,
                      \<lparr>cp_userId = b, cp_chatId = ce_newId env,
                       cp_joinedAt = ce_now env, cp_isActive = True\<rparr>]\<rparr>) (ce_newId env)\<rparr>,
       d\<lparr>chats := chats d @
             [\<lparr>chat_id = ce_newId env, chat_eventId = e,
               chat_createdAt = ce_now env, chat_updatedAt = ce_now env\<rparr>],
          chatParticipants := chatParticipants d @
             [\<lparr>cp_userId = a, cp_chatId = ce_newId env,
               cp_joinedAt = ce_now env, cp_isActive = True\<rparr>,
              \<lparr>cp_userId = b, cp_chatId = ce_newId env,
               cp_joinedAt = ce_now env, cp_isActive = True\<rparr>]\<rparr>))"
  by (simp add: createChat_def Let_def)

lemma createChat_rooms:
  assumes wf: "wf_chats d" and cr: "createChat d e a b env = (r, d')"
  shows "wf_chats d'"
    and "events d' = events d" and "eventParticipants d' = eventParticipants d"
    and "length (chats d') \<le> length (chats d) + 1"
    and "findExistingChat d e2 a2 b2 = Some v \<Longrightarrow> findExistingChat d' e2 a2 b2 = Some v"
    and "findExistingChat d e a b = None \<Longrightarrow> r = Inr w \<Longrightarrow> findExistingChat d' e a b = Some w"
proof -
  let ?cn = "\<lparr>chat_id = ce_newId env, chat_eventId = e,
              chat_createdAt = ce_now env, chat_updatedAt = ce_now env\<rparr>"
  let ?p1 = "\<lparr>cp_userId = a, cp_chatId = ce_newId env,
              cp_joinedAt = ce_now env, cp_isActive = True\<rparr>"
  let ?p2 = "\<lparr>cp_userId = b, cp_chatId = ce_newId env,
              cp_joinedAt = ce_now env, cp_isActive = True\<rparr>"
  let ?d' = "d\<lparr>chats := chats d @ [?cn], chatParticipants := chatParticipants d @ [?p1, ?p2]\<rparr>"
  from createChat_cases [of d e a b env] cr
  consider (fail) "d' = d" "\<exists>x. r = Inl x"
    | (ok) "d' = ?d'" "r = Inr \<lparr>cv_chat = ?cn, cv_participants = participantsOf ?d' (ce_newId env)\<rparr>"
         "ce_newId env \<notin> set (map chat_id (chats d))"
    by auto
  then have all: "wf_chats d' \<and> events d' = events d \<and> eventParticipants d' = eventParticipants d \<and>
      length (chats d') \<le> length (chats d) + 1 \<and>
      (findExistingChat d e2 a2 b2 = Some v \<longrightarrow> findExistingChat d' e2 a2 b2 = Some v) \<and>
      (findExistingChat d e a b = None \<longrightarrow> r = Inr w \<longrightarrow> findExistingChat d' e a b = Some w)"
  proof cases
    case fail
    then show ?thesis using wf by auto
  next
    case ok
    have ch: "chats ?d' = chats d @ [?cn]" by simp
    have ps: "chatParticipants ?d' = chatParticipants d @ [?p1, ?p2]" by simp
    have fresh: "chat_id ?cn \<notin> set (map chat_id (chats d))" using ok(3) by simp
    have k1: "cp_chatId ?p1 = chat_id ?cn" and k2: "cp_chatId ?p2 = chat_id ?cn" by simp_all
    note ar = append_room [OF wf ch ps fresh k1 k2]
    have w1: "wf_chats ?d'" by (rule ar(1))
    have keep: "findExistingChat d e2 a2 b2 = Some v \<longrightarrow> findExistingChat ?d' e2 a2 b2 = Some v"
      using ar(2) [of e2 a2 b2 v] by blast
    have new: "findExistingChat d e a b = None \<longrightarrow> r = Inr w \<longrightarrow> findExistingChat ?d' e a b = Some w"
    proof (intro impI)
      assume none: "findExistingChat d e a b = None" and rw: "r = Inr w"
      have "findExistingChat ?d' e a b = Some \<lparr>cv_chat = ?cn, cv_participants = [?p1, ?p2]\<rparr>"
        by (rule ar(3) [OF none]) simp_all
      moreover from findExistingChat_Some [OF this]
      have "participantsOf ?d' (ce_newId env) = [?p1, ?p2]" by simp
      ultimately show "findExistingChat ?d' e a b = Some w"
        using ok(2) rw by simp
    qed
    show ?thesis using ok(1) w1 keep new by simp
  qed
  from all show "wf_chats d'" by simp
  from all show "events d' = events d" by simp
  from all show "eventParticipants d' = eventParticipants d" by simp
  from all show "length (chats d') \<le> length (chats d) + 1" by simp
  from all show "findExistingChat d e2 a2 b2 = Some v \<Longrightarrow> findExistingChat d' e2 a2 b2 = Some v" by simp
  from all show "findExistingChat d e a b = None \<Longrightarrow> r = Inr w \<Longrightarrow> findExistingChat d' e a b = Some w" by simp
qed


lemma authorizeForEvent_cong:
  "events d' = events d \<Longrightarrow> eventParticipants d' = eventParticipants d \<Longrightarrow>
   authorizeForEvent d' e a b = authorizeForEvent d e a b"
  by (simp only: authorizeForEvent_def)

lemma getOrCreateChat_rooms:
  assumes wf: "wf_chats d" and g: "getOrCreateChat d e a b env = (r, d')"
  shows "wf_chats d'"
    and "events d' = events d" and "eventParticipants d' = eventParticipants d"
    and "length (chats d') \<le> length (chats d) + 1"
    and "findExistingChat d e2 a2 b2 = Some v \<Longrightarrow> findExistingChat d' e2 a2 b2 = Some v"
    and "r = Inr w \<Longrightarrow> findExistingChat d' e a b = Some w \<and> authorizeForEvent d' e a b = Inr ()"
proof -
  consider (denied) x where "authorizeForEvent d e a b = Inl x"
    | (found) v0 where "authorizeForEvent d e a b = Inr ()" "findExistingChat d e a b = Some v0"
    | (create) "authorizeForEvent d e a b = Inr ()" "findExistingChat d e a b = None"
    by (cases "authorizeForEvent d e a b"; cases "findExistingChat d e a b") auto
  then have all: "wf_chats d' \<and> events d' = events d \<and> eventParticipants d' = eventParticipants d \<and>
      length (chats d') \<le> length (chats d) + 1 \<and>
      (findExistingChat d e2 a2 b2 = Some v \<longrightarrow> findExistingChat d' e2 a2 b2 = Some v) \<and>
      (r = Inr w \<longrightarrow> findExistingChat d' e a b = Some w \<and> authorizeForEvent d' e a b = Inr ())"
  proof cases
    case denied
    with g have "d' = d" "r = Inl x" by (simp_all add: getOrCreateChat_def)
    then show ?thesis using wf by simp
  next
    case found
    with g have "d' = d" "r = Inr v0" by (simp_all add: getOrCreateChat_def)
    then show ?thesis using wf found by auto
  next
    case create
    with g have cr: "createChat d e a b env = (r, d')" by (simp add: getOrCreateChat_def)
    note cc = createChat_rooms [OF wf cr]
    have auth: "authorizeForEvent d' e a b = Inr ()"
      using authorizeForEvent_cong [OF cc(2) cc(3)] create(1) by simp
    have keep: "findExistingChat d e2 a2 b2 = Some v \<longrightarrow> findExistingChat d' e2 a2 b2 = Some v"
      using cc(5) [of e2 a2 b2 v] by blast
    have new: "r = Inr w \<longrightarrow> findExistingChat d' e a b = Some w"
      using cc(6) [OF create(2), of w] by blast
    show ?thesis using cc(1) cc(2) cc(3) cc(4) keep new auth by simp
  qed
  from all show "wf_chats d'" by simp
  from all show "events d' = events d" by simp
  from all show "eventParticipants d' = eventParticipants d" by simp
  from all show "length (chats d') \<le> length (chats d) + 1" by simp
  from all show "findExistingChat d e2 a2 b2 = Some v \<Longrightarrow> findExistingChat d' e2 a2 b2 = Some v" by simp
  from all show "r = Inr w \<Longrightarrow> findExistingChat d' e a b = Some w \<and> authorizeForEvent d' e a b = Inr ()" by simp
qed

lemma later_call:
  assumes "findExistingChat d e a b = Some v" and "authorizeForEvent d e a b = Inr ()"
  shows "getOrCreateChat d e a b env = (Inr v, d)" and "getOrCreateChat d e b a env = (Inr v, d)"
  using assms
  by (simp_all add: getOrCreateChat_def authorizeForEvent_sym [of d e b a]
        findExistingChat_sym [of d e b a])

text \<open>What one call of the service does to the rooms and to the event tables.\<close>

lemma step_rooms:
  assumes wf: "wf_chats d"
  shows "wf_chats (step d c) \<and> events (step d c) = events d \<and>
         eventParticipants (step d c) = eventParticipants d \<and>
         (findExistingChat d e a b = Some v \<longrightarrow>
            (\<exists>v'. findExistingChat (step d c) e a b = Some v' \<and>
                  chat_id (cv_chat v') = chat_id (cv_chat v) \<and>
                  cv_participants v' = cv_participants v))"
proof (cases c)
  case (SendMessage chatId senderId receiverId content img env)
  let ?m = "\<lparr>msg_id = se_newId env, msg_content = content, msg_image = img,
            msg_isRead = False, msg_createdAt = se_createdAt env,
            msg_senderId = senderId, msg_receiverId = receiverId, msg_chatId = chatId\<rparr>"
  let ?d' = "d\<lparr>chatMessages := chatMessages d @ [?m],
          chats := map (\<lambda>c. if chat_id c = chatId then c\<lparr>chat_updatedAt := se_now env\<rparr> else c)
                     (chats d)\<rparr>"
  from sendMessage_cases [of d chatId senderId receiverId content img env] SendMessage
  consider "step d c = d" | "step d c = ?d'" by auto
  then show ?thesis
  proof cases
    case 1
    then show ?thesis using wf by simp
  next
    case 2
    have ch: "chats ?d' = map (\<lambda>c. if chat_id c = chatId then c\<lparr>chat_updatedAt := se_now env\<rparr> else c) (chats d)"
      by simp
    have ps: "chatParticipants ?d' = chatParticipants d" by simp
    note sr = stamp_room [OF wf ch ps]
    show ?thesis unfolding 2 using sr(1) sr(2) [of e a b v] by simp
  qed
next
  case (GetChatMessages chatId userId page limit)
  then have same: "chats (step d c) = chats d" "chatParticipants (step d c) = chatParticipants d"
    "events (step d c) = events d" "eventParticipants (step d c) = eventParticipants d"
    by (auto simp: getChatMessages_def Let_def split: option.splits sum.splits)
  show ?thesis
    using same_rooms [OF same(1) same(2)] same(3) same(4) wf by simp
next
  case (MarkMessageAsRead messageId userId)
  then have same: "chats (step d c) = chats d" "chatParticipants (step d c) = chatParticipants d"
    "events (step d c) = events d" "eventParticipants (step d c) = eventParticipants d"
    by (auto simp: markMessageAsRead_def split: option.splits)
  show ?thesis
    using same_rooms [OF same(1) same(2)] same(3) same(4) wf by simp
next
  case (GetOrCreateChat e2 a2 b2 env)
  obtain r d' where g: "getOrCreateChat d e2 a2 b2 env = (r, d')" by (cases "getOrCreateChat d e2 a2 b2 env")
  with GetOrCreateChat have s: "step d c = d'" by simp
  note gr = getOrCreateChat_rooms [OF wf g]
  show ?thesis unfolding s using gr(1) gr(2) gr(3) gr(5) [of e a b v] by auto
qed

lemma run_rooms:
  "wf_chats d \<Longrightarrow> findExistingChat d e a b = Some v \<Longrightarrow>
   wf_chats (run d cs) \<and> events (run d cs) = events d \<and>
   eventParticipants (run d cs) = eventParticipants d \<and>
   (\<exists>v'. findExistingChat (run d cs) e a b = Some v' \<and>
         chat_id (cv_chat v') = chat_id (cv_chat v) \<and>
         cv_participants v' = cv_participants v)"
proof (induction cs arbitrary: d v)
  case Nil
  then show ?case by simp
next
  case (Cons c cs)
  from step_rooms [OF Cons.prems(1), of c e a b v] Cons.prems(2)
  obtain v1 where wf1: "wf_chats (step d c)"
    and ev: "events (step d c) = events d"
    and ep: "eventParticipants (step d c) = eventParticipants d"
    and f1: "findExistingChat (step d c) e a b = Some v1"
    and id1: "chat_id (cv_chat v1) = chat_id (cv_chat v)"
    and p1: "cv_participants v1 = cv_participants v"
    by auto
  from Cons.IH [OF wf1 f1] ev ep id1 p1 show ?case by auto
qed


lemma wf_chats_run: "wf_chats d \<Longrightarrow> wf_chats (run d cs)"
proof (induction cs arbitrary: d)
  case Nil
  then show ?case by simp
next
  case (Cons c cs)
  from step_rooms [OF Cons.prems, of c] have "wf_chats (step d c)" by simp
  from Cons.IH [OF this] show ?case by simp
qed

text \<open>
  Claim C6, as the code has it: for calls that do not overlap. On a well-formed store,
  a call of \<open>getOrCreateChat\<close> that returns a room creates at most one chat row. After
  it, a call for the same event and the same two users, in either order, returns the
  very same room and leaves the store as it is. And after any further calls of the
  service, performed one after the other, such a call still returns a room with the
  same id and the same participants, and changes nothing.
\<close>

theorem getOrCreateChat_idempotent_sequential:
  assumes "wf_chats d"
    and "getOrCreateChat d eventId userA userB env = (Inr v, d1)"
  shows "length (chats d1) \<le> length (chats d) + 1 \<and>
         getOrCreateChat d1 eventId userA userB env' = (Inr v, d1) \<and>
         getOrCreateChat d1 eventId userB userA env' = (Inr v, d1) \<and>
         (\<exists>v'. chat_id (cv_chat v') = chat_id (cv_chat v) \<and>
               cv_participants v' = cv_participants v \<and>
               getOrCreateChat (run d1 cs) eventId userA userB env' = (Inr v', run d1 cs) \<and>
               getOrCreateChat (run d1 cs) eventId userB userA env' = (Inr v', run d1 cs))"
proof -
  note gr = getOrCreateChat_rooms [OF assms]
  have wf1: "wf_chats d1" by (rule gr(1))
  have len: "length (chats d1) \<le> length (chats d) + 1" by (rule gr(4))
  from gr(6) [of v] have f1: "findExistingChat d1 eventId userA userB = Some v"
    and a1: "authorizeForEvent d1 eventId userA userB = Inr ()" by simp_all
  note again = later_call [OF f1 a1, of env']
  from run_rooms [OF wf1 f1, of cs]
  obtain v' where ev: "events (run d1 cs) = events d1"
    and ep: "eventParticipants (run d1 cs) = eventParticipants d1"
    and f2: "findExistingChat (run d1 cs) eventId userA userB = Some v'"
    and id2: "chat_id (cv_chat v') = chat_id (cv_chat v)"
    and p2: "cv_participants v' = cv_participants v"
    by auto
  have a2: "authorizeForEvent (run d1 cs) eventId userA userB = Inr ()"
    using authorizeForEvent_cong [OF ev ep] a1 by simp
  note later = later_call [OF f2 a2, of env']
  from id2 p2 later
  have "\<exists>v'. chat_id (cv_chat v') = chat_id (cv_chat v) \<and>
               cv_participants v' = cv_participants v \<and>
               getOrCreateChat (run d1 cs) eventId userA userB env' = (Inr v', run d1 cs) \<and>
               getOrCreateChat (run d1 cs) eventId userB userA env' = (Inr v', run d1 cs)"
    by blast
  with len again show ?thesis by blast
qed

text \<open>
  In the scenario before any room exists: the call for \<open>A\<close> and \<open>B\<close> creates \<open>R1\<close>; the
  call for \<open>B\<close> and \<open>A\<close> that follows returns the same room and the same store; and
  after a message has been sent in \<open>R1\<close> there is still the one room.
\<close>

theorem getOrCreateChat_idempotent_sequential_witness:
  "wf_chats freshDb \<and>
   map chat_id (chats (snd (getOrCreateChat freshDb ''E'' ''A'' ''B''
      \<lparr>ce_newId = ''R1'', ce_now = 5\<rparr>))) = [''R1''] \<and>
   getOrCreateChat
      (snd (getOrCreateChat freshDb ''E'' ''A'' ''B'' \<lparr>ce_newId = ''R1'', ce_now = 5\<rparr>))
      ''E'' ''B'' ''A'' \<lparr>ce_newId = ''R2'', ce_now = 6\<rparr>
     = getOrCreateChat freshDb ''E'' ''A'' ''B'' \<lparr>ce_newId = ''R1'', ce_now = 5\<rparr> \<and>
   map chat_id (chats (snd (getOrCreateChat
      (run (snd (getOrCreateChat freshDb ''E'' ''A'' ''B'' \<lparr>ce_newId = ''R1'', ce_now = 5\<rparr>))
         [SendMessage ''R1'' ''A'' ''B'' ''hi'' None
            \<lparr>se_newId = ''m1'', se_createdAt = 7, se_now = 8,
             se_createFails = False, se_updateFails = False\<rparr>])
      ''E'' ''B'' ''A'' \<lparr>ce_newId = ''R2'', ce_now = 9\<rparr>))) = [''R1'']"
proof -
  let ?first = "getOrCreateChat freshDb ''E'' ''A'' ''B'' \<lparr>ce_newId = ''R1'', ce_now = 5\<rparr>"
  let ?v = "\<lparr>cv_chat = \<lparr>chat_id = ''R1'', chat_eventId = ''E'', chat_createdAt = 5,
                         chat_updatedAt = 5\<rparr>,
             cv_participants =
               [\<lparr>cp_userId = ''A'', cp_chatId = ''R1'', cp_joinedAt = 5, cp_isActive = True\<rparr>,
                \<lparr>cp_userId = ''B'', cp_chatId = ''R1'', cp_joinedAt = 5, cp_isActive = True\<rparr>]\<rparr>"
  have wf: "wf_chats freshDb" by code_simp
  have "fst ?first = Inr ?v" by code_simp
  then have first: "?first = (Inr ?v, snd ?first)" by (metis prod.collapse)
  have one: "map chat_id (chats (snd ?first)) = [''R1'']" by code_simp
  have same: "getOrCreateChat (snd ?first) ''E'' ''B'' ''A'' \<lparr>ce_newId = ''R2'', ce_now = 6\<rparr>
      = ?first"
    using getOrCreateChat_idempotent_sequential
      [OF wf first, of "\<lparr>ce_newId = ''R2'', ce_now = 6\<rparr>" "[]"] first by simp
  have still: "map chat_id (chats (snd (getOrCreateChat
      (run (snd ?first)
         [SendMessage ''R1'' ''A'' ''B'' ''hi'' None
            \<lparr>se_newId = ''m1'', se_createdAt = 7, se_now = 8,
             se_createFails = False, se_updateFails = False\<rparr>])
      ''E'' ''B'' ''A'' \<lparr>ce_newId = ''R2'', ce_now = 9\<rparr>))) = [''R1'']"
    by code_simp
  show ?thesis using wf one same still by simp
qed

section \<open>Properties of the gateway\<close>

subsection \<open>Disconnect\<close>

text \<open>
  Claim C5 says that a disconnect removes the registration only when the disconnecting
  socket is the registered one. \<open>handleDisconnect\<close> does not look at the registered
  socket: after \<open>U\<close> has connected with \<open>S1\<close> and then with \<open>S2\<close>, the map holds
  \<open>S2\<close> for \<open>U\<close>; the disconnect of \<open>S1\<close> removes that entry and \<open>U\<close> is no longer
  online.
\<close>

theorem stale_disconnect_evicts_newer_session:
  "connectedUsers (fst afterS2) = [(''U'', ''S2'')] \<and>
   isUserOnline (fst afterS2) ''U'' \<and>
   connectedUsers afterS1Disconnect = [] \<and>
   \<not> isUserOnline afterS1Disconnect ''U''"
  by code_simp

text \<open>
  Claim C5, as the code has it. The disconnect of a socket that carries a user id
  removes that user's entry from \<open>connectedUsers\<close>, whichever socket the entry holds:
  the user is not online afterwards, the entries of all other users are as before, and
  \<open>userOffline\<close> goes to the other sockets. The disconnect of a socket without a user
  id changes nothing.
\<close>

theorem handleDisconnect_unregisters_user:
  "(sock_userId client = Some u \<and> u \<noteq> [] \<longrightarrow>
      \<not> isUserOnline (handleDisconnect g client) u \<and>
      (\<forall>v. v \<noteq> u \<longrightarrow>
         map_of (connectedUsers (handleDisconnect g client)) v = map_of (connectedUsers g) v) \<and>
      emitted (handleDisconnect g client)
        = emitted g @ [ToOthers (sock_id client) (UserOffline u)]) \<and>
   (\<not> truthy (sock_userId client) \<longrightarrow> handleDisconnect g client = g)"
  by (auto simp: handleDisconnect_def isUserOnline_def truthy_def emit_def delete_conv
           split: option.splits)

theorem handleDisconnect_unregisters_user_witness:
  "sock_userId (snd afterS1) = Some ''U'' \<and>
   map_of (connectedUsers (fst afterS2)) ''U'' = Some ''S2'' \<and>
   \<not> isUserOnline (handleDisconnect (fst afterS2) (snd afterS1)) ''U'' \<and>
   handleDisconnect emptyGateway (newSocket ''S9'' ''V'') = emptyGateway"
proof -
  have u: "sock_userId (snd afterS1) = Some ''U''" by code_simp
  have reg: "map_of (connectedUsers (fst afterS2)) ''U'' = Some ''S2''" by code_simp
  have off: "\<not> isUserOnline (handleDisconnect (fst afterS2) (snd afterS1)) ''U''"
    using handleDisconnect_unregisters_user [of "snd afterS1" "''U''" "fst afterS2"] u by simp
  have n: "\<not> truthy (sock_userId (newSocket ''S9'' ''V''))"
    by (simp add: newSocket_def truthy_def)
  have same: "handleDisconnect emptyGateway (newSocket ''S9'' ''V'') = emptyGateway"
    using handleDisconnect_unregisters_user [of "newSocket ''S9'' ''V''" u emptyGateway] n
    by simp
  show ?thesis using u reg off same by simp
qed

subsection \<open>Joining a room\<close>

text \<open>
  Claim C3 says that a caller who is neither the host nor an accepted participant is
  not subscribed to the room. \<open>handleJoinChat\<close> subscribes every socket that carries a
  user id: in the example scenario \<open>M\<close> is neither the host of \<open>E\<close> nor a participant
  of the event or of the room \<open>R\<close>, and the socket of \<open>M\<close> is subscribed to the room of
  \<open>R\<close> and told \<open>joinedChat\<close>.
\<close>

theorem handleJoinChat_subscribes_outsider:
  "map event_creatorId (events exampleDb) = [''A''] \<and>
   map ep_userId (eventParticipants exampleDb) = [''B''] \<and>
   map cp_userId (participantsOf exampleDb ''R'') = [''B'', ''A''] \<and>
   handleJoinChat emptyGateway (authSocket ''s3'' ''M'') ''R''
     = emptyGateway\<lparr>rooms := {(''s3'', ''chat_R'')},
                     emitted := [ToClient ''s3'' (JoinedChat ''R'')]\<rparr>"
  by code_simp

end
